theory Spec2Isabelle
  imports Main "HOL-Library.Multiset"
begin

section \<open>Data model\<close>

text \<open>
  A content identifier is opaque to the code at hand: it is only passed on, compared and
  printed with \<open>String()\<close>. It is identified here with its printed form.
\<close>

datatype cid = Cid (String: string)

text \<open>
  A Go \<open>error\<close> is an interface value: it is compared by identity (\<open>err == bs.ErrNotFound\<close>)
  and read through \<open>Error()\<close>. \<open>ident\<close> says which of the two declared sentinels the value
  is, if any. The text of the sentinels is declared outside these sources and is left open.
\<close>

datatype error_ident = bs_ErrNotFound | ds_ErrNotFound | other_error

datatype error = MkError (ident: error_ident) (err_Error: string)

text \<open>\<open>fmt.Errorf\<close> and \<open>errors.New\<close> make a fresh error value, which is no sentinel.\<close>

definition Errorf :: "string \<Rightarrow> error" where
  "Errorf msg = MkError other_error msg"

text \<open>
  \<open>u.RemovedBlock\<close>: the code builds it with \<open>Hash\<close> and \<open>Error\<close>, both strings; a field left
  out of the struct literal has Go's zero value, the empty string.
\<close>

record RemovedBlock =
  Hash :: string
  Error :: string

text \<open>\<open>u.RmBlocksOpts\<close>, with the three fields the code reads.\<close>

record RmBlocksOpts =
  Prefix :: string
  Quiet :: bool
  Force :: bool

text \<open>
  Modelled from the spec: the type \<open>pin.Pinned\<close> is declared in the pin package, which is not
  among the sources verified here. Section 4.4 gives an entry of the answer of \<open>CheckIfPinned\<close> as
  (cid, pinned: bool, reason: string); \<open>r.Key\<close> is the first, \<open>r.Pinned()\<close> the second and
  \<open>r.String()\<close> the third.
\<close>

record Pinned =
  Key :: cid
  pinned :: bool
  reason :: string

text \<open>
  Objects that the code compares as pointers (\<open>fs.fm == foundIn\<close>) are references. The
  \<open>Filestore\<close> struct holds the filestore manager \<open>fm\<close> and the plain block store \<open>bs\<close>.
\<close>

type_synonym ref = nat

record Filestore =
  fm :: ref
  bs :: ref

text \<open>
  The collaborators behind the interfaces are parameters. \<open>'s\<close> is their state (both
  backends and the pin set). \<open>Has\<close> and \<open>DeleteBlock\<close> are the methods of the object a
  reference points to; \<open>Has\<close> returns Go's pair (bool, error). \<open>FilestorePrefix\<close> and
  \<open>BlockPrefix\<close> are the values of \<open>FilestorePrefix.String()\<close> and \<open>bs.BlockPrefix.String()\<close>.
\<close>

record 's env =
  Has :: "ref \<Rightarrow> 's \<Rightarrow> cid \<Rightarrow> bool \<times> error option"
  DeleteBlock :: "ref \<Rightarrow> cid \<Rightarrow> 's \<Rightarrow> error option \<times> 's"
  FilestorePrefix :: string
  BlockPrefix :: string

text \<open>\<open>pins.CheckIfPinned(cids...)\<close> reads the state and returns Go's pair ([]Pinned, error).\<close>

type_synonym 's Pinner = "'s \<Rightarrow> cid list \<Rightarrow> error + Pinned list"

text \<open>
  The calls made on the GC lock and on a deleter, in the order they are made, are logged
  beside the collaborators' state. \<open>crashed\<close> holds the message of a panic that ended the
  process.
\<close>

datatype call = GCLock | Unlock | Call_DeleteBlock ref cid

record 's world =
  state :: 's
  calls :: "call list"
  crashed :: "string option"

text \<open>
  A buffered channel: its capacity, the values sent on it in order, and whether it has been
  closed.
\<close>

record chan =
  cap :: nat
  buf :: "RemovedBlock list"
  closed :: bool

definition make_chan :: "nat \<Rightarrow> chan" where
  "make_chan n = \<lparr>cap = n, buf = [], closed = False\<rparr>"

definition send :: "chan \<Rightarrow> RemovedBlock \<Rightarrow> chan" where
  "send ch v = ch\<lparr>buf := buf ch @ [v]\<rparr>"

definition close :: "chan \<Rightarrow> chan" where
  "close ch = ch\<lparr>closed := True\<rparr>"

text \<open>A call either returns a value or panics with a message.\<close>

datatype 'a outcome = Panic string | Return 'a

section \<open>The deletion pipeline of the filestore package\<close>

text \<open>\<open>AvailableElsewhere\<close>: the switch tries \<open>fs.fm == foundIn\<close> first.\<close>

definition AvailableElsewhere :: "'s env \<Rightarrow> Filestore \<Rightarrow> ref \<Rightarrow> cid \<Rightarrow> 's \<Rightarrow> bool outcome" where
  "AvailableElsewhere env fs foundIn c s =
     (if fm fs = foundIn then Return (fst (Has env (bs fs) s c))
      else if bs fs = foundIn then Return (fst (Has env (fm fs) s c))
      else Panic ''invalid pointer for foundIn'')"

text \<open>
  The loop of \<open>FilterPinned\<close> over the answer of the pin check. \<open>||\<close> is short-circuit:
  \<open>AvailableElsewhere\<close> is called for pinned entries only.
\<close>

fun FilterPinned_loop ::
  "'s env \<Rightarrow> Filestore \<Rightarrow> ref \<Rightarrow> 's \<Rightarrow> Pinned list \<Rightarrow> chan \<Rightarrow> cid list \<Rightarrow> cid list outcome \<times> chan" where
  "FilterPinned_loop env fs foundIn s [] out stillOkay = (Return stillOkay, out)"
| "FilterPinned_loop env fs foundIn s (r # rs) out stillOkay =
     (if \<not> pinned r then FilterPinned_loop env fs foundIn s rs out (stillOkay @ [Key r])
      else case AvailableElsewhere env fs foundIn (Key r) s of
             Panic p \<Rightarrow> (Panic p, out)
           | Return True \<Rightarrow> FilterPinned_loop env fs foundIn s rs out (stillOkay @ [Key r])
           | Return False \<Rightarrow>
               FilterPinned_loop env fs foundIn s rs
                 (send out \<lparr>Hash = String (Key r), Error = reason r\<rparr>) stillOkay)"

definition FilterPinned ::
  "'s env \<Rightarrow> Filestore \<Rightarrow> 's Pinner \<Rightarrow> chan \<Rightarrow> cid list \<Rightarrow> ref \<Rightarrow> 's \<Rightarrow> cid list outcome \<times> chan" where
  "FilterPinned env fs pins out cids foundIn s =
     (case pins s cids of
        Inl err \<Rightarrow>
          (Return [], send out \<lparr>Hash = [], Error = ''pin check failed: '' @ err_Error err\<rparr>)
      | Inr res \<Rightarrow> FilterPinned_loop env fs foundIn s res out [])"

text \<open>The body of the delete loop of \<open>RmBlocks\<close> for one CID, and the loop.\<close>

definition delete_step ::
  "'s env \<Rightarrow> ref \<Rightarrow> RmBlocksOpts \<Rightarrow> cid \<Rightarrow> chan \<Rightarrow> 's world \<Rightarrow> chan \<times> 's world" where
  "delete_step env blocks opts c out w =
     (case DeleteBlock env blocks c (state w) of
        (err, s') \<Rightarrow>
          let w' = w\<lparr>state := s', calls := calls w @ [Call_DeleteBlock blocks c]\<rparr> in
          if err \<noteq> None \<and> Force opts \<and>
             (map_option ident err = Some bs_ErrNotFound \<or> map_option ident err = Some ds_ErrNotFound)
          then (out, w')
          else if err \<noteq> None
          then (send out \<lparr>Hash = String c, Error = err_Error (the err)\<rparr>, w')
          else if \<not> Quiet opts
          then (send out \<lparr>Hash = String c, Error = []\<rparr>, w')
          else (out, w'))"

fun delete_loop ::
  "'s env \<Rightarrow> ref \<Rightarrow> RmBlocksOpts \<Rightarrow> cid list \<Rightarrow> chan \<Rightarrow> 's world \<Rightarrow> chan \<times> 's world" where
  "delete_loop env blocks opts [] out w = (out, w)"
| "delete_loop env blocks opts (c # cs) out w =
     (case delete_step env blocks opts c out w of
        (out', w') \<Rightarrow> delete_loop env blocks opts cs out' w')"

text \<open>
  What \<open>DeleteBlock\<close> returns to the delete loop, CID by CID: each call runs in the state
  the call before it has left. The options and the channel have no part in it.
\<close>

fun delete_results :: "'s env \<Rightarrow> ref \<Rightarrow> cid list \<Rightarrow> 's \<Rightarrow> (cid \<times> error option) list" where
  "delete_results env blocks [] s = []"
| "delete_results env blocks (c # cs) s =
     (case DeleteBlock env blocks c s of
        (err, s') \<Rightarrow> (c, err) # delete_results env blocks cs s')"

text \<open>
  The goroutine of \<open>RmBlocks\<close>. The deferred calls run last, also when the body panics:
  first \<open>unlocker.Unlock()\<close>, then \<open>close(out)\<close>.
\<close>

definition RmBlocks_go ::
  "'s env \<Rightarrow> Filestore \<Rightarrow> 's Pinner \<Rightarrow> cid list \<Rightarrow> RmBlocksOpts \<Rightarrow> ref \<Rightarrow> chan \<Rightarrow> 's world
     \<Rightarrow> chan \<times> 's world" where
  "RmBlocks_go env fs pins cids opts blocks out w =
     (let w1 = w\<lparr>calls := calls w @ [GCLock]\<rparr> in
      case FilterPinned env fs pins out cids blocks (state w1) of
        (Panic p, out1) \<Rightarrow>
          (close out1, w1\<lparr>calls := calls w1 @ [Unlock], crashed := Some p\<rparr>)
      | (Return stillOkay, out1) \<Rightarrow>
          (case delete_loop env blocks opts stillOkay out1 w1 of
             (out2, w2) \<Rightarrow> (close out2, w2\<lparr>calls := calls w2 @ [Unlock]\<rparr>)))"

text \<open>
  \<open>RmBlocks\<close> returns Go's pair (channel, error) and the world after the goroutine has run.
  The channel is made before the prefix is looked at. The \<open>lock\<close> argument is the GC lock
  of the world, whose calls are logged; the collaborators' state is read and changed by this
  goroutine alone while it holds the lock.
\<close>

definition RmBlocks ::
  "'s env \<Rightarrow> Filestore \<Rightarrow> 's Pinner \<Rightarrow> cid list \<Rightarrow> RmBlocksOpts \<Rightarrow> 's world
     \<Rightarrow> (error + chan) \<times> 's world" where
  "RmBlocks env fs pins cids opts w =
     (let out = make_chan (length cids) in
      if Prefix opts = FilestorePrefix env
      then (case RmBlocks_go env fs pins cids opts (fm fs) out w of (ch, w') \<Rightarrow> (Inr ch, w'))
      else if Prefix opts = BlockPrefix env
      then (case RmBlocks_go env fs pins cids opts (bs fs) out w of (ch, w') \<Rightarrow> (Inr ch, w'))
      else (Inl (Errorf (''Unknown prefix: '' @ Prefix opts @ [CHR 0x0A])), w))"

section \<open>The commands\<close>

text \<open>
  A command reports through its response emitter: \<open>re.SetError(err, code)\<close>, \<open>re.Emit(v)\<close>, or
  nothing but the deferred \<open>re.Close()\<close>. \<open>ErrNormal\<close> and \<open>ErrClient\<close> are the two error codes
  the commands at hand use.
\<close>

datatype ErrorType = ErrNormal | ErrClient

datatype 'a response = SetError error ErrorType | Emit 'a | Close

subsection \<open>block rm\<close>

text \<open>
  The request of \<open>block rm\<close>: its arguments and what \<open>req.Option("force").Bool()\<close> and
  \<open>req.Option("quiet").Bool()\<close> return.
\<close>

record RmRequest =
  Arguments :: "string list"
  force :: bool
  quiet :: bool

text \<open>
  The loop of \<open>blockRmCmd.Run\<close> that decodes the arguments. \<open>Decode\<close> is \<open>cid.Decode\<close>, of the
  go-cid library, a parameter. The first argument that fails to decode ends the loop with
  the error the command sets.
\<close>

fun decode_loop :: "(string \<Rightarrow> error + cid) \<Rightarrow> string list \<Rightarrow> cid list \<Rightarrow> error + cid list" where
  "decode_loop Decode [] cids = Inr cids"
| "decode_loop Decode (hash # hashes) cids =
     (case Decode hash of
        Inl err \<Rightarrow>
          Inl (Errorf (''invalid content id: '' @ hash @ '' ('' @ err_Error err @ '')''))
      | Inr c \<Rightarrow> decode_loop Decode hashes (cids @ [c]))"

text \<open>
  \<open>blockRmCmd.Run\<close>. \<open>GetNode\<close> is the result of \<open>req.InvocContext().GetNode()\<close>, and
  \<open>util_RmBlocks\<close> is \<open>util.RmBlocks\<close> of the blockstore's util package, called with the node's
  block store and pinner; both are parameters. The options are built without a prefix.
\<close>

definition blockRmCmd_Run ::
  "(error + 'n) \<Rightarrow> (string \<Rightarrow> error + cid) \<Rightarrow>
   ('n \<Rightarrow> cid list \<Rightarrow> RmBlocksOpts \<Rightarrow> 'w \<Rightarrow> (error + 'c) \<times> 'w) \<Rightarrow> RmRequest \<Rightarrow> 'w
     \<Rightarrow> 'c response \<times> 'w" where
  "blockRmCmd_Run GetNode Decode util_RmBlocks req w =
     (case GetNode of
        Inl err \<Rightarrow> (SetError err ErrNormal, w)
      | Inr n \<Rightarrow>
          (case decode_loop Decode (Arguments req) [] of
             Inl err \<Rightarrow> (SetError err ErrNormal, w)
           | Inr cids \<Rightarrow>
               (case util_RmBlocks n cids \<lparr>Prefix = [], Quiet = quiet req, Force = force req\<rparr> w of
                  (Inl err, w') \<Rightarrow> (SetError err ErrNormal, w')
                | (Inr ch, w') \<Rightarrow> (Emit ch, w'))))"

subsection \<open>add\<close>

text \<open>
  The request of \<open>add\<close>, as \<open>Run\<close> reads it: for each option the value that
  \<open>req.Option(name).Bool()\<close> (or \<open>.String()\<close>) returns, for \<open>raw-leaves\<close> also whether the option
  was given (\<open>rbset\<close>), and the files \<open>req.Files().NextFile()\<close> yields before \<open>io.EOF\<close>, each a
  file or an error.
\<close>

record 'f AddRequest =
  progress :: bool
  trickle :: bool
  wrap :: bool
  hash :: bool
  hidden :: bool
  silent :: bool
  chunker :: string
  dopin :: bool
  rawblks :: bool
  rbset :: bool
  nocopy :: bool
  fscache :: bool
  local :: bool
  Files :: "(error + 'f) list"

text \<open>
  The fields \<open>Run\<close> sets on the adder, and the two choices it makes for the services the
  adder writes through: the GC block store unless \<open>fscache\<close> or \<open>nocopy\<close>, and the offline
  exchange when \<open>local\<close>.
\<close>

record Adder =
  Chunker :: string
  Progress :: bool
  Hidden :: bool
  Trickle :: bool
  Wrap :: bool
  Pin :: bool
  Silent :: bool
  RawLeaves :: bool
  NoCopy :: bool
  gc_blockstore :: bool
  offline_exchange :: bool

text \<open>\<open>cfg.Experimental.FilestoreEnabled\<close> is the one field of the configuration that is read.\<close>

record Config =
  FilestoreEnabled :: bool

text \<open>
  The collaborators of \<open>add\<close> are parameters: the node and its configuration, the node
  without repository of the only-hash mode, the constructors of the adder and of the MFS
  root, and the three methods of the adder, which work on the node they were made for and
  change the world \<open>'w\<close>.
\<close>

record ('n, 'f, 'w) add_env =
  GetNode :: "error + 'n"
  Repo_Config :: "'n \<Rightarrow> error + Config"
  NewNode :: "'n \<Rightarrow> error + 'n"
  NewAdder :: "'n \<Rightarrow> error option"
  NewRoot :: "error option"
  AddFile :: "'n \<Rightarrow> Adder \<Rightarrow> 'f \<Rightarrow> 'w \<Rightarrow> error option \<times> 'w"
  Finalize :: "'n \<Rightarrow> Adder \<Rightarrow> 'w \<Rightarrow> error option \<times> 'w"
  PinRoot :: "'n \<Rightarrow> Adder \<Rightarrow> 'w \<Rightarrow> error option \<times> 'w"

text \<open>The loop of \<open>addAllAndPin\<close> over the top-level files, and \<open>addAllAndPin\<close>.\<close>

fun addAll_loop ::
  "('n, 'f, 'w) add_env \<Rightarrow> 'n \<Rightarrow> Adder \<Rightarrow> (error + 'f) list \<Rightarrow> 'w \<Rightarrow> error option \<times> 'w" where
  "addAll_loop env n fileAdder [] w = (None, w)"
| "addAll_loop env n fileAdder (Inl err # fs) w = (Some err, w)"
| "addAll_loop env n fileAdder (Inr file # fs) w =
     (case AddFile env n fileAdder file w of
        (Some err, w') \<Rightarrow> (Some err, w')
      | (None, w') \<Rightarrow> addAll_loop env n fileAdder fs w')"

definition addAllAndPin ::
  "('n, 'f, 'w) add_env \<Rightarrow> 'n \<Rightarrow> Adder \<Rightarrow> bool \<Rightarrow> (error + 'f) list \<Rightarrow> 'w \<Rightarrow> error option \<times> 'w" where
  "addAllAndPin env n fileAdder hash_only f w =
     (case addAll_loop env n fileAdder f w of
        (Some err, w') \<Rightarrow> (Some err, w')
      | (None, w') \<Rightarrow>
          (case Finalize env n fileAdder w' of
             (Some err, w'') \<Rightarrow> (Some err, w'')
           | (None, w'') \<Rightarrow> if hash_only then (None, w'') else PinRoot env n fileAdder w''))"

text \<open>
  \<open>AddCmd.Run\<close>, in the order of its checks. \<open>rawblks'\<close> is \<open>rawblks\<close> after the assignment
  \<open>if nocopy && !rbset { rawblks = true }\<close>.
\<close>

definition AddCmd_Run ::
  "('n, 'f, 'w) add_env \<Rightarrow> 'f AddRequest \<Rightarrow> 'w \<Rightarrow> unit response \<times> 'w" where
  "AddCmd_Run env req w =
     (case GetNode env of
        Inl err \<Rightarrow> (SetError err ErrNormal, w)
      | Inr n \<Rightarrow>
     (case Repo_Config env n of
        Inl err \<Rightarrow> (SetError err ErrNormal, w)
      | Inr cfg \<Rightarrow>
     if nocopy req \<and> \<not> FilestoreEnabled cfg
     then (SetError (Errorf ''filestore is not enabled, see https://git.io/vy4XN'') ErrClient, w)
     else
     let rawblks' = (if nocopy req \<and> \<not> rbset req then True else rawblks req) in
     if nocopy req \<and> \<not> rawblks'
     then (SetError
             (Errorf (''nocopy option requires '' @ [CHR 0x27] @ ''--raw-leaves'' @ [CHR 0x27] @
                      '' to be enabled as well'')) ErrNormal, w)
     else
     (case (if hash req then NewNode env n else Inr n) of
        Inl err \<Rightarrow> (SetError err ErrNormal, w)
      | Inr n' \<Rightarrow>
     (case NewAdder env n' of
        Some err \<Rightarrow> (SetError err ErrNormal, w)
      | None \<Rightarrow>
     let fileAdder = \<lparr>Chunker = chunker req, Progress = progress req, Hidden = hidden req,
                      Trickle = trickle req, Wrap = wrap req, Pin = dopin req,
                      Silent = silent req, RawLeaves = rawblks', NoCopy = nocopy req,
                      gc_blockstore = (\<not> (fscache req \<or> nocopy req)),
                      offline_exchange = local req\<rparr> in
     (case (if hash req then NewRoot env else None) of
        Some err \<Rightarrow> (SetError err ErrNormal, w)
      | None \<Rightarrow>
     (case addAllAndPin env n' fileAdder (hash req) (Files req) w of
        (Some err, w') \<Rightarrow> (SetError err ErrNormal, w')
      | (None, w') \<Rightarrow> (Close, w')))))))"

section \<open>An in-memory pair of stores\<close>

text \<open>
  Modelled from the spec: the two backends and the pin set are not among the sources verified here.
  Section 6 gives the block store interface as \<open>Has(cid) bool\<close> and \<open>Delete(cid) err\<close>, where
  \<open>err\<close> distinguishes "not found" from other I/O failures, and section 4.4 gives the pin
  set's bulk check, which answers for each input CID. The stores below are the simplest ones
  of that interface; they are the concrete collaborators on which the theorems are run.
  \<open>held\<close> lists which backend holds which block, \<open>faulty\<close> the deletions that fail with an
  I/O error, \<open>pinset\<close> the pinned CIDs with the reason of the pin.
\<close>

record mem =
  held :: "(ref \<times> cid) list"
  faulty :: "(ref \<times> cid) list"
  pinset :: "(cid \<times> string) list"

definition mem_Has :: "ref \<Rightarrow> mem \<Rightarrow> cid \<Rightarrow> bool \<times> error option" where
  "mem_Has r s c = ((r, c) \<in> set (held s), None)"

definition mem_DeleteBlock :: "ref \<Rightarrow> cid \<Rightarrow> mem \<Rightarrow> error option \<times> mem" where
  "mem_DeleteBlock r c s =
     (if (r, c) \<in> set (faulty s) then (Some (Errorf ''input/output error''), s)
      else if (r, c) \<in> set (held s) then (None, s\<lparr>held := removeAll (r, c) (held s)\<rparr>)
      else (Some (MkError bs_ErrNotFound ''blockstore: block not found''), s))"

definition mem_CheckIfPinned :: "mem Pinner" where
  "mem_CheckIfPinned s cids =
     Inr (map (\<lambda>c. case map_of (pinset s) c of
                      None \<Rightarrow> \<lparr>Key = c, pinned = False, reason = ''not pinned''\<rparr>
                    | Some why \<Rightarrow> \<lparr>Key = c, pinned = True, reason = why\<rparr>) cids)"

definition failing_CheckIfPinned :: "mem Pinner" where
  "failing_CheckIfPinned s cids = Inl (Errorf ''merkledag: not found'')"

definition mem_env :: "mem env" where
  "mem_env = \<lparr>Has = mem_Has, DeleteBlock = mem_DeleteBlock,
              FilestorePrefix = ''/filestore'', BlockPrefix = ''/blocks''\<rparr>"

definition mem_fs :: Filestore where
  "mem_fs = \<lparr>fm = 1, bs = 2\<rparr>"

definition mem_world :: "mem \<Rightarrow> mem world" where
  "mem_world s = \<lparr>state = s, calls = [], crashed = None\<rparr>"

text \<open>
  Modelled from the spec: \<open>cid.Decode\<close> and the collaborators of \<open>add\<close> are not among the sources
  verified here either. Section 6 has the CID's string form decoded at the boundary, where a decode
  failure is an error. \<open>test_Decode\<close> is a stand-in that accepts the strings starting with
  \<open>Q\<close>; \<open>test_add_env\<close> is a node with the filestore enabled whose adder never fails and logs
  each file it is given, with the settings it was given.
\<close>

definition test_Decode :: "string \<Rightarrow> error + cid" where
  "test_Decode h =
     (case h of
        [] \<Rightarrow> Inl (Errorf ''cid too short'')
      | x # _ \<Rightarrow> if x = CHR ''Q'' then Inr (Cid h)
                 else Inl (Errorf ''selected encoding not supported''))"

definition test_add_env :: "(unit, string, (Adder \<times> string) list) add_env" where
  "test_add_env =
     \<lparr>GetNode = Inr (), Repo_Config = (\<lambda>n. Inr \<lparr>FilestoreEnabled = True\<rparr>),
      NewNode = (\<lambda>n. Inr n), NewAdder = (\<lambda>n. None), NewRoot = None,
      AddFile = (\<lambda>n a f w. (None, w @ [(a, f)])),
      Finalize = (\<lambda>n a w. (None, w)), PinRoot = (\<lambda>n a w. (None, w))\<rparr>"

definition test_AddRequest :: "string AddRequest" where
  "test_AddRequest =
     \<lparr>progress = False, trickle = False, wrap = False, hash = False, hidden = False,
      silent = False, chunker = [], dopin = True, rawblks = False, rbset = False,
      nocopy = True, fscache = False, local = False, Files = [Inr ''a.txt'']\<rparr>"

section \<open>Facts about the loops\<close>

text \<open>
  Called from \<open>RmBlocks\<close>, \<open>foundIn\<close> is one of the two backends, and \<open>AvailableElsewhere\<close>
  returns.
\<close>

lemma AvailableElsewhere_known:
  "foundIn = fm fs \<or> foundIn = bs fs \<Longrightarrow>
   AvailableElsewhere env fs foundIn c s = Return (fst (Has env (if fm fs = foundIn then bs fs else fm fs) s c))"
  by (auto simp: AvailableElsewhere_def)

lemma FilterPinned_loop_known:
  assumes "foundIn = fm fs \<or> foundIn = bs fs"
  shows "FilterPinned_loop env fs foundIn s res out acc =
    (Return (acc @ map Key (filter (\<lambda>r. pinned r \<longrightarrow> AvailableElsewhere env fs foundIn (Key r) s = Return True) res)),
     out\<lparr>buf := buf out @ map (\<lambda>r. \<lparr>Hash = String (Key r), Error = reason r\<rparr>)
        (filter (\<lambda>r. pinned r \<and> AvailableElsewhere env fs foundIn (Key r) s = Return False) res)\<rparr>)"
proof (induction res arbitrary: out acc)
  case Nil
  show ?case by simp
next
  case (Cons r rs)
  obtain b where b: "AvailableElsewhere env fs foundIn (Key r) s = Return b"
    by (simp add: AvailableElsewhere_known[OF assms])
  show ?case
  proof (cases "pinned r")
    case False
    then show ?thesis by (simp add: Cons.IH)
  next
    case True
    then show ?thesis using b by (cases b) (simp_all add: Cons.IH send_def)
  qed
qed

lemma delete_step_world:
  "snd (delete_step env blocks opts c out w) =
     w\<lparr>state := snd (DeleteBlock env blocks c (state w)), calls := calls w @ [Call_DeleteBlock blocks c]\<rparr>"
  by (simp add: delete_step_def Let_def split: prod.splits)

lemma delete_loop_calls:
  "calls (snd (delete_loop env blocks opts cs out w)) = calls w @ map (Call_DeleteBlock blocks) cs"
proof (induction cs arbitrary: out w)
  case Nil
  show ?case by simp
next
  case (Cons c cs)
  obtain out' w' where st: "delete_step env blocks opts c out w = (out', w')"
    by (cases "delete_step env blocks opts c out w")
  have "calls w' = calls w @ [Call_DeleteBlock blocks c]"
    using delete_step_world[of env blocks opts c out w] st by simp
  then show ?case using Cons.IH[of out' w'] st by simp
qed


lemma delete_step_chan:
  "cap (fst (delete_step env blocks opts c out w)) = cap out \<and>
   closed (fst (delete_step env blocks opts c out w)) = closed out \<and>
   (\<exists>more. buf (fst (delete_step env blocks opts c out w)) = buf out @ more \<and> length more \<le> 1)"
  by (simp add: delete_step_def Let_def send_def split: prod.splits)

lemma delete_loop_chan:
  "cap (fst (delete_loop env blocks opts cs out w)) = cap out \<and>
   closed (fst (delete_loop env blocks opts cs out w)) = closed out \<and>
   (\<exists>more. buf (fst (delete_loop env blocks opts cs out w)) = buf out @ more \<and> length more \<le> length cs)"
proof (induction cs arbitrary: out w)
  case Nil
  show ?case by simp
next
  case (Cons c cs)
  obtain out' w' where st: "delete_step env blocks opts c out w = (out', w')"
    by (cases "delete_step env blocks opts c out w")
  from delete_step_chan[of env blocks opts c out w] st
  obtain m1 where m1: "cap out' = cap out" "closed out' = closed out"
      "buf out' = buf out @ m1" "length m1 \<le> 1"
    by auto
  from Cons.IH[of out' w']
  obtain m2 where m2: "cap (fst (delete_loop env blocks opts cs out' w')) = cap out'"
      "closed (fst (delete_loop env blocks opts cs out' w')) = closed out'"
      "buf (fst (delete_loop env blocks opts cs out' w')) = buf out' @ m2" "length m2 \<le> length cs"
    by auto
  have "buf (fst (delete_loop env blocks opts (c # cs) out w)) = buf out @ (m1 @ m2)"
    using st m1 m2 by simp
  moreover have "length (m1 @ m2) \<le> length (c # cs)"
    using m1 m2 by simp
  ultimately show ?case using st m1 m2 by auto
qed

lemma delete_loop_crashed:
  "crashed (snd (delete_loop env blocks opts cs out w)) = crashed w"
proof (induction cs arbitrary: out w)
  case Nil
  show ?case by simp
next
  case (Cons c cs)
  obtain out' w' where st: "delete_step env blocks opts c out w = (out', w')"
    by (cases "delete_step env blocks opts c out w")
  have "crashed w' = crashed w"
    using delete_step_world[of env blocks opts c out w] st by simp
  then show ?case using Cons.IH[of out' w'] st by simp
qed

lemma delete_step_loud:
  "\<not> Quiet opts \<Longrightarrow> \<not> Force opts \<Longrightarrow>
   map Hash (buf (fst (delete_step env blocks opts c out w))) = map Hash (buf out) @ [String c]"
  by (simp add: delete_step_def Let_def send_def split: prod.splits)

lemma delete_loop_loud:
  "\<not> Quiet opts \<Longrightarrow> \<not> Force opts \<Longrightarrow>
   map Hash (buf (fst (delete_loop env blocks opts cs out w))) = map Hash (buf out) @ map String cs"
proof (induction cs arbitrary: out w)
  case Nil
  show ?case by simp
next
  case (Cons c cs)
  obtain out' w' where st: "delete_step env blocks opts c out w = (out', w')"
    by (cases "delete_step env blocks opts c out w")
  have "map Hash (buf out') = map Hash (buf out) @ [String c]"
    using delete_step_loud[OF Cons.prems, of env blocks c out w] st by simp
  then show ?case using Cons.IH[OF Cons.prems, of out' w'] st by simp
qed

lemma RmBlocks_go_pin_error:
  "pins (state w) cids = Inl err \<Longrightarrow>
   RmBlocks_go env fs pins cids opts blocks out w =
     (close (send out \<lparr>Hash = [], Error = ''pin check failed: '' @ err_Error err\<rparr>),
      w\<lparr>calls := calls w @ [GCLock, Unlock]\<rparr>)"
  by (simp add: RmBlocks_go_def FilterPinned_def Let_def)

lemma RmBlocks_go_checked:
  assumes "blocks = fm fs \<or> blocks = bs fs" and "pins (state w) cids = Inr res"
  shows "RmBlocks_go env fs pins cids opts blocks out w =
     (case delete_loop env blocks opts
             (map Key (filter (\<lambda>r. pinned r \<longrightarrow> AvailableElsewhere env fs blocks (Key r) (state w) = Return True) res))
             (out\<lparr>buf := buf out @ map (\<lambda>r. \<lparr>Hash = String (Key r), Error = reason r\<rparr>)
                (filter (\<lambda>r. pinned r \<and> AvailableElsewhere env fs blocks (Key r) (state w) = Return False) res)\<rparr>)
             (w\<lparr>calls := calls w @ [GCLock]\<rparr>) of
        (out2, w2) \<Rightarrow> (close out2, w2\<lparr>calls := calls w2 @ [Unlock]\<rparr>))"
  using assms(2) by (simp add: RmBlocks_go_def FilterPinned_def Let_def FilterPinned_loop_known[OF assms(1)])

lemma RmBlocks_selected:
  assumes "RmBlocks env fs pins cids opts w = (Inr ch, w')"
  shows "(Prefix opts = FilestorePrefix env \<or> Prefix opts = BlockPrefix env) \<and>
         RmBlocks_go env fs pins cids opts
           (if Prefix opts = FilestorePrefix env then fm fs else bs fs) (make_chan (length cids)) w = (ch, w')"
  using assms by (auto simp: RmBlocks_def Let_def split: if_splits prod.splits)

section \<open>The claims\<close>

text \<open>
  C2. For every CID and for both directions, \<open>AvailableElsewhere\<close> returns what \<open>Has\<close> of the
  sibling backend returns for that CID: asked with the filestore manager it answers with the
  plain store's \<open>Has\<close>, asked with the plain store it answers with the filestore manager's.
  Asked with a \<open>foundIn\<close> that is neither backend it panics; it has no error to return.
\<close>

theorem AvailableElsewhere_sibling:
  "(foundIn = fm fs \<longrightarrow>
      AvailableElsewhere env fs foundIn c s = Return (fst (Has env (bs fs) s c))) \<and>
   (foundIn = bs fs \<longrightarrow>
      AvailableElsewhere env fs foundIn c s = Return (fst (Has env (fm fs) s c))) \<and>
   (foundIn \<noteq> fm fs \<and> foundIn \<noteq> bs fs \<longrightarrow>
      AvailableElsewhere env fs foundIn c s = Panic ''invalid pointer for foundIn'')"
  by (auto simp: AvailableElsewhere_def)

theorem AvailableElsewhere_sibling_witness:
  "AvailableElsewhere mem_env mem_fs 1 (Cid ''Qx'')
     \<lparr>held = [(2, Cid ''Qx'')], faulty = [], pinset = []\<rparr> = Return True \<and>
   AvailableElsewhere mem_env mem_fs 2 (Cid ''Qx'')
     \<lparr>held = [(2, Cid ''Qx'')], faulty = [], pinset = []\<rparr> = Return False \<and>
   AvailableElsewhere mem_env mem_fs 3 (Cid ''Qx'')
     \<lparr>held = [(2, Cid ''Qx'')], faulty = [], pinset = []\<rparr> = Panic ''invalid pointer for foundIn''"
  using AvailableElsewhere_sibling[of 1 mem_fs mem_env "Cid ''Qx''" "\<lparr>held = [(2, Cid ''Qx'')], faulty = [], pinset = []\<rparr>"]
    AvailableElsewhere_sibling[of 2 mem_fs mem_env "Cid ''Qx''" "\<lparr>held = [(2, Cid ''Qx'')], faulty = [], pinset = []\<rparr>"]
    AvailableElsewhere_sibling[of 3 mem_fs mem_env "Cid ''Qx''" "\<lparr>held = [(2, Cid ''Qx'')], faulty = [], pinset = []\<rparr>"]
  by (simp add: mem_fs_def mem_env_def mem_Has_def)

text \<open>
  C6. When the prefix in the options is neither the filestore prefix nor the plain block
  store prefix, \<open>RmBlocks\<close> returns the error "Unknown prefix" and no channel, and the world is
  the one it was called in: the GC lock has not been taken, the goroutine has not been
  started and no block has been deleted.
\<close>

theorem RmBlocks_unknown_prefix:
  assumes "Prefix opts \<noteq> FilestorePrefix env" and "Prefix opts \<noteq> BlockPrefix env"
  shows "RmBlocks env fs pins cids opts w =
           (Inl (Errorf (''Unknown prefix: '' @ Prefix opts @ [CHR 0x0A])), w)"
  using assms by (simp add: RmBlocks_def)

theorem RmBlocks_unknown_prefix_witness:
  "Prefix \<lparr>Prefix = ''/keys'', Quiet = False, Force = False\<rparr> \<noteq> FilestorePrefix mem_env \<and>
   Prefix \<lparr>Prefix = ''/keys'', Quiet = False, Force = False\<rparr> \<noteq> BlockPrefix mem_env \<and>
   RmBlocks mem_env mem_fs mem_CheckIfPinned [Cid ''Qx'']
       \<lparr>Prefix = ''/keys'', Quiet = False, Force = False\<rparr>
       (mem_world \<lparr>held = [(2, Cid ''Qx'')], faulty = [], pinset = []\<rparr>) =
     (Inl (MkError other_error (''Unknown prefix: /keys'' @ [CHR 0x0A])),
      \<lparr>state = \<lparr>held = [(2, Cid ''Qx'')], faulty = [], pinset = []\<rparr>, calls = [], crashed = None\<rparr>)"
proof -
  have a: "Prefix \<lparr>Prefix = ''/keys'', Quiet = False, Force = False\<rparr> \<noteq> FilestorePrefix mem_env"
    by (simp add: mem_env_def)
  have b: "Prefix \<lparr>Prefix = ''/keys'', Quiet = False, Force = False\<rparr> \<noteq> BlockPrefix mem_env"
    by (simp add: mem_env_def)
  show ?thesis
    using a b RmBlocks_unknown_prefix[OF a b, of mem_fs mem_CheckIfPinned "[Cid ''Qx'']"
        "mem_world \<lparr>held = [(2, Cid ''Qx'')], faulty = [], pinset = []\<rparr>"]
    by (simp add: Errorf_def mem_world_def)
qed

text \<open>
  C10. When the batch pin check returns an error, \<open>RmBlocks\<close> emits exactly one outcome, with
  an empty hash and the message "pin check failed: " followed by the error, and closes the
  channel. The only calls made are taking and releasing the GC lock: \<open>DeleteBlock\<close> is not
  called, and the state of the backends is unchanged.
\<close>

theorem RmBlocks_pin_check_error:
  assumes "Prefix opts = FilestorePrefix env \<or> Prefix opts = BlockPrefix env"
    and "pins (state w) cids = Inl err"
  shows "RmBlocks env fs pins cids opts w =
           (Inr \<lparr>cap = length cids,
                 buf = [\<lparr>Hash = [], Error = ''pin check failed: '' @ err_Error err\<rparr>],
                 closed = True\<rparr>,
            w\<lparr>calls := calls w @ [GCLock, Unlock]\<rparr>)"
  using assms
  by (auto simp: RmBlocks_def Let_def RmBlocks_go_pin_error make_chan_def send_def close_def)

theorem RmBlocks_pin_check_error_witness:
  "(Prefix \<lparr>Prefix = ''/blocks'', Quiet = False, Force = False\<rparr> = FilestorePrefix mem_env \<or>
    Prefix \<lparr>Prefix = ''/blocks'', Quiet = False, Force = False\<rparr> = BlockPrefix mem_env) \<and>
   failing_CheckIfPinned \<lparr>held = [(2, Cid ''Qx'')], faulty = [], pinset = []\<rparr> [Cid ''Qx'']
     = Inl (MkError other_error ''merkledag: not found'') \<and>
   RmBlocks mem_env mem_fs failing_CheckIfPinned [Cid ''Qx'']
       \<lparr>Prefix = ''/blocks'', Quiet = False, Force = False\<rparr>
       (mem_world \<lparr>held = [(2, Cid ''Qx'')], faulty = [], pinset = []\<rparr>) =
     (Inr \<lparr>cap = 1, buf = [\<lparr>Hash = [], Error = ''pin check failed: merkledag: not found''\<rparr>],
           closed = True\<rparr>,
      \<lparr>state = \<lparr>held = [(2, Cid ''Qx'')], faulty = [], pinset = []\<rparr>,
        calls = [GCLock, Unlock], crashed = None\<rparr>)"
proof -
  have a: "Prefix \<lparr>Prefix = ''/blocks'', Quiet = False, Force = False\<rparr> = FilestorePrefix mem_env \<or>
           Prefix \<lparr>Prefix = ''/blocks'', Quiet = False, Force = False\<rparr> = BlockPrefix mem_env"
    by (simp add: mem_env_def)
  have b: "failing_CheckIfPinned
             (state (mem_world \<lparr>held = [(2, Cid ''Qx'')], faulty = [], pinset = []\<rparr>)) [Cid ''Qx'']
           = Inl (MkError other_error ''merkledag: not found'')"
    by (simp add: failing_CheckIfPinned_def Errorf_def)
  show ?thesis
    using a b RmBlocks_pin_check_error[where opts = "\<lparr>Prefix = ''/blocks'', Quiet = False, Force = False\<rparr>"
        and env = mem_env and pins = failing_CheckIfPinned and cids = "[Cid ''Qx'']" and fs = mem_fs
        and w = "mem_world \<lparr>held = [(2, Cid ''Qx'')], faulty = [], pinset = []\<rparr>"
        and err = "MkError other_error ''merkledag: not found''"]
    by (simp add: mem_world_def)
qed

text \<open>
  The channel after the delete loop is the channel before it, followed by what the loop sends
  for each result of \<open>DeleteBlock\<close> in turn. The world after the loop depends neither on the
  options nor on the channel.
\<close>

lemma delete_loop_stream:
  "fst (delete_loop env blocks opts cs out w) =
     out\<lparr>buf := buf out @ concat (map (\<lambda>(c, err). case err of
                  None \<Rightarrow> if Quiet opts then [] else [\<lparr>Hash = String c, Error = []\<rparr>]
                | Some e \<Rightarrow>
                    if Force opts \<and> (ident e = bs_ErrNotFound \<or> ident e = ds_ErrNotFound) then []
                    else [\<lparr>Hash = String c, Error = err_Error e\<rparr>]) (delete_results env blocks cs (state w)))\<rparr>"
proof (induction cs arbitrary: out w)
  case Nil
  show ?case by simp
next
  case (Cons c cs)
  obtain err s' where d: "DeleteBlock env blocks c (state w) = (err, s')"
    by (cases "DeleteBlock env blocks c (state w)")
  obtain out' w' where st: "delete_step env blocks opts c out w = (out', w')"
    by (cases "delete_step env blocks opts c out w")
  have w': "state w' = s'"
    using delete_step_world[of env blocks opts c out w] st d by simp
  have out': "out' = out\<lparr>buf := buf out @ (\<lambda>(c, err). case err of
                  None \<Rightarrow> if Quiet opts then [] else [\<lparr>Hash = String c, Error = []\<rparr>]
                | Some e \<Rightarrow>
                    if Force opts \<and> (ident e = bs_ErrNotFound \<or> ident e = ds_ErrNotFound) then []
                    else [\<lparr>Hash = String c, Error = err_Error e\<rparr>]) (c, err)\<rparr>"
    using st d by (cases err) (auto simp: delete_step_def Let_def send_def)
  show ?case
    using Cons.IH[of out' w'] st d w' out' by simp
qed

lemma delete_loop_world:
  "snd (delete_loop env blocks opts cs out w) = snd (delete_loop env blocks opts' cs out' w)"
proof (induction cs arbitrary: out out' w)
  case Nil
  show ?case by simp
next
  case (Cons c cs)
  obtain o1 w1 where s1: "delete_step env blocks opts c out w = (o1, w1)"
    by (cases "delete_step env blocks opts c out w")
  obtain o2 w2 where s2: "delete_step env blocks opts' c out' w = (o2, w2)"
    by (cases "delete_step env blocks opts' c out' w")
  have "w1 = w2"
    using delete_step_world[of env blocks opts c out w]
      delete_step_world[of env blocks opts' c out' w] s1 s2 by simp
  then show ?case using Cons.IH[of o1 w1 o2] s1 s2 by simp
qed

text \<open>
  With a known prefix and a pin check that succeeds, \<open>RmBlocks\<close> returns the channel of its
  delete loop, run with the caller's options over the entries that were not rejected, on the
  channel that holds the rejections.
\<close>

lemma RmBlocks_is_loop:
  assumes known: "Prefix opts = FilestorePrefix env \<or> Prefix opts = BlockPrefix env"
    and chk: "pins (state w) cids = Inr res"
    and sel: "blocks = (if Prefix opts = FilestorePrefix env then fm fs else bs fs)"
  shows "RmBlocks env fs pins cids opts w =
    (case delete_loop env blocks opts (map Key (filter (\<lambda>r. \<not> (pinned r \<and> AvailableElsewhere env fs blocks (Key r) (state w) = Return False)) res))
            \<lparr>cap = length cids,
              buf = map (\<lambda>r. \<lparr>Hash = String (Key r), Error = reason r\<rparr>) (filter (\<lambda>r. pinned r \<and> AvailableElsewhere env fs blocks (Key r) (state w) = Return False) res),
              closed = False\<rparr>
            (w\<lparr>calls := calls w @ [GCLock]\<rparr>) of
       (out2, w2) \<Rightarrow> (Inr (close out2), w2\<lparr>calls := calls w2 @ [Unlock]\<rparr>))"
proof -
  have kb: "blocks = fm fs \<or> blocks = bs fs"
    using sel by auto
  have same: "(\<lambda>r. pinned r \<longrightarrow> AvailableElsewhere env fs blocks (Key r) (state w) = Return True)
      = (\<lambda>r. \<not> (pinned r \<and> AvailableElsewhere env fs blocks (Key r) (state w) = Return False))"
    using AvailableElsewhere_known[OF kb, of env _ "state w"] by auto
  have go: "RmBlocks env fs pins cids opts w =
      (case RmBlocks_go env fs pins cids opts blocks (make_chan (length cids)) w of
         (ch, w') \<Rightarrow> (Inr ch, w'))"
    using known sel by (auto simp: RmBlocks_def Let_def)
  show ?thesis
    unfolding go RmBlocks_go_checked[where pins = pins and w = w and cids = cids and res = res, OF kb chk] same
    by (simp add: make_chan_def split: prod.splits)
qed

text \<open>
  C3. Take any call of \<open>RmBlocks\<close> that returns a channel, with \<open>res\<close> the answer of the pin
  check and \<open>blocks\<close> the backend the prefix selects. The outcomes on the returned channel are
  the pinned rejections, followed, for each CID of the delete loop in turn, by what the loop
  sends for the result of its \<open>DeleteBlock\<close>. For a CID whose \<open>DeleteBlock\<close> fails with the
  error \<open>e\<close>: nothing when the caller's \<open>force\<close> is set and \<open>e\<close> is one of the two not-found
  errors; in every other case, that is a not-found error without \<open>force\<close>, or any other
  error with or without \<open>force\<close>, the outcome with the hash of the CID and the text of \<open>e\<close>.
\<close>

theorem RmBlocks_failed_delete_outcomes:
  assumes run: "RmBlocks env fs pins cids opts w = (Inr ch, w')"
    and chk: "pins (state w) cids = Inr res"
    and sel: "blocks = (if Prefix opts = FilestorePrefix env then fm fs else bs fs)"
  shows "buf ch =
     map (\<lambda>r. \<lparr>Hash = String (Key r), Error = reason r\<rparr>) (filter (\<lambda>r. pinned r \<and> AvailableElsewhere env fs blocks (Key r) (state w) = Return False) res) @
     concat (map (\<lambda>(c, err). case err of
                  None \<Rightarrow> if Quiet opts then [] else [\<lparr>Hash = String c, Error = []\<rparr>]
                | Some e \<Rightarrow>
                    if Force opts \<and> (ident e = bs_ErrNotFound \<or> ident e = ds_ErrNotFound) then []
                    else [\<lparr>Hash = String c, Error = err_Error e\<rparr>])
        (delete_results env blocks (map Key (filter (\<lambda>r. \<not> (pinned r \<and> AvailableElsewhere env fs blocks (Key r) (state w) = Return False)) res)) (state w)))"
proof -
  let ?okay = "map Key (filter (\<lambda>r. \<not> (pinned r \<and> AvailableElsewhere env fs blocks (Key r) (state w) = Return False)) res)"
  let ?out1 = "\<lparr>cap = length cids,
              buf = map (\<lambda>r. \<lparr>Hash = String (Key r), Error = reason r\<rparr>) (filter (\<lambda>r. pinned r \<and> AvailableElsewhere env fs blocks (Key r) (state w) = Return False) res),
              closed = False\<rparr>"
  let ?w1 = "w\<lparr>calls := calls w @ [GCLock]\<rparr>"
  have known: "Prefix opts = FilestorePrefix env \<or> Prefix opts = BlockPrefix env"
    using RmBlocks_selected[OF run] by simp
  obtain out2 w2 where dl: "delete_loop env blocks opts ?okay ?out1 ?w1 = (out2, w2)"
    by (cases "delete_loop env blocks opts ?okay ?out1 ?w1")
  have "ch = close out2"
    using run dl unfolding RmBlocks_is_loop[where pins = pins and w = w and cids = cids and res = res, OF known chk sel]
    by simp
  moreover have "out2 = fst (delete_loop env blocks opts ?okay ?out1 ?w1)"
    using dl by simp
  ultimately show ?thesis
    unfolding delete_loop_stream by (simp add: close_def)
qed

theorem RmBlocks_failed_delete_outcomes_witness:
  "RmBlocks mem_env mem_fs mem_CheckIfPinned [Cid ''Qx'', Cid ''Qw'', Cid ''Qz'', Cid ''Qa'']
       \<lparr>Prefix = ''/blocks'', Quiet = False, Force = True\<rparr>
       (mem_world \<lparr>held = [(2, Cid ''Qx''), (2, Cid ''Qa'')], faulty = [(2, Cid ''Qz'')],
                    pinset = [(Cid ''Qx'', ''pinned: recursive'')]\<rparr>)
     = (Inr \<lparr>cap = 4,
             buf = [\<lparr>Hash = ''Qx'', Error = ''pinned: recursive''\<rparr>,
                    \<lparr>Hash = ''Qz'', Error = ''input/output error''\<rparr>,
                    \<lparr>Hash = ''Qa'', Error = []\<rparr>],
             closed = True\<rparr>,
        \<lparr>state = \<lparr>held = [(2, Cid ''Qx'')], faulty = [(2, Cid ''Qz'')],
                   pinset = [(Cid ''Qx'', ''pinned: recursive'')]\<rparr>,
          calls = [GCLock, Call_DeleteBlock 2 (Cid ''Qw''), Call_DeleteBlock 2 (Cid ''Qz''),
                   Call_DeleteBlock 2 (Cid ''Qa''), Unlock],
          crashed = None\<rparr>) \<and>
   RmBlocks mem_env mem_fs mem_CheckIfPinned [Cid ''Qx'', Cid ''Qw'', Cid ''Qz'', Cid ''Qa'']
       \<lparr>Prefix = ''/blocks'', Quiet = False, Force = False\<rparr>
       (mem_world \<lparr>held = [(2, Cid ''Qx''), (2, Cid ''Qa'')], faulty = [(2, Cid ''Qz'')],
                    pinset = [(Cid ''Qx'', ''pinned: recursive'')]\<rparr>)
     = (Inr \<lparr>cap = 4,
             buf = [\<lparr>Hash = ''Qx'', Error = ''pinned: recursive''\<rparr>,
                    \<lparr>Hash = ''Qw'', Error = ''blockstore: block not found''\<rparr>,
                    \<lparr>Hash = ''Qz'', Error = ''input/output error''\<rparr>,
                    \<lparr>Hash = ''Qa'', Error = []\<rparr>],
             closed = True\<rparr>,
        \<lparr>state = \<lparr>held = [(2, Cid ''Qx'')], faulty = [(2, Cid ''Qz'')],
                   pinset = [(Cid ''Qx'', ''pinned: recursive'')]\<rparr>,
          calls = [GCLock, Call_DeleteBlock 2 (Cid ''Qw''), Call_DeleteBlock 2 (Cid ''Qz''),
                   Call_DeleteBlock 2 (Cid ''Qa''), Unlock],
          crashed = None\<rparr>) \<and>
   delete_results mem_env 2 [Cid ''Qw'', Cid ''Qz'', Cid ''Qa'']
       \<lparr>held = [(2, Cid ''Qx''), (2, Cid ''Qa'')], faulty = [(2, Cid ''Qz'')],
         pinset = [(Cid ''Qx'', ''pinned: recursive'')]\<rparr>
     = [(Cid ''Qw'', Some (MkError bs_ErrNotFound ''blockstore: block not found'')),
        (Cid ''Qz'', Some (MkError other_error ''input/output error'')),
        (Cid ''Qa'', None)]"
proof -
  let ?s = "\<lparr>held = [(2, Cid ''Qx''), (2, Cid ''Qa'')], faulty = [(2, Cid ''Qz'')],
             pinset = [(Cid ''Qx'', ''pinned: recursive'')]\<rparr>"
  let ?forced = "\<lparr>Prefix = ''/blocks'', Quiet = False, Force = True\<rparr>"
  let ?plain = "\<lparr>Prefix = ''/blocks'', Quiet = False, Force = False\<rparr>"
  let ?cids = "[Cid ''Qx'', Cid ''Qw'', Cid ''Qz'', Cid ''Qa'']"
  let ?res = "[\<lparr>Key = Cid ''Qx'', pinned = True, reason = ''pinned: recursive''\<rparr>,
               \<lparr>Key = Cid ''Qw'', pinned = False, reason = ''not pinned''\<rparr>,
               \<lparr>Key = Cid ''Qz'', pinned = False, reason = ''not pinned''\<rparr>,
               \<lparr>Key = Cid ''Qa'', pinned = False, reason = ''not pinned''\<rparr>]"
  let ?w' = "\<lparr>state = \<lparr>held = [(2, Cid ''Qx'')], faulty = [(2, Cid ''Qz'')],
                   pinset = [(Cid ''Qx'', ''pinned: recursive'')]\<rparr>,
          calls = [GCLock, Call_DeleteBlock 2 (Cid ''Qw''), Call_DeleteBlock 2 (Cid ''Qz''),
                   Call_DeleteBlock 2 (Cid ''Qa''), Unlock],
          crashed = None\<rparr>"
  let ?chf = "\<lparr>cap = 4,
             buf = [\<lparr>Hash = ''Qx'', Error = ''pinned: recursive''\<rparr>,
                    \<lparr>Hash = ''Qz'', Error = ''input/output error''\<rparr>,
                    \<lparr>Hash = ''Qa'', Error = []\<rparr>],
             closed = True\<rparr>"
  let ?chp = "\<lparr>cap = 4,
             buf = [\<lparr>Hash = ''Qx'', Error = ''pinned: recursive''\<rparr>,
                    \<lparr>Hash = ''Qw'', Error = ''blockstore: block not found''\<rparr>,
                    \<lparr>Hash = ''Qz'', Error = ''input/output error''\<rparr>,
                    \<lparr>Hash = ''Qa'', Error = []\<rparr>],
             closed = True\<rparr>"
  have runf: "RmBlocks mem_env mem_fs mem_CheckIfPinned ?cids ?forced (mem_world ?s) = (Inr ?chf, ?w')"
    by (simp add: RmBlocks_def RmBlocks_go_def FilterPinned_def AvailableElsewhere_def
        delete_step_def Let_def mem_env_def mem_fs_def mem_world_def mem_CheckIfPinned_def
        mem_Has_def mem_DeleteBlock_def make_chan_def send_def close_def Errorf_def)
  have runp: "RmBlocks mem_env mem_fs mem_CheckIfPinned ?cids ?plain (mem_world ?s) = (Inr ?chp, ?w')"
    by (simp add: RmBlocks_def RmBlocks_go_def FilterPinned_def AvailableElsewhere_def
        delete_step_def Let_def mem_env_def mem_fs_def mem_world_def mem_CheckIfPinned_def
        mem_Has_def mem_DeleteBlock_def make_chan_def send_def close_def Errorf_def)
  have chk: "mem_CheckIfPinned (state (mem_world ?s)) ?cids = Inr ?res"
    by (simp add: mem_CheckIfPinned_def mem_world_def)
  have self: "(2::nat) = (if Prefix ?forced = FilestorePrefix mem_env then fm mem_fs else bs mem_fs)"
    and selp: "(2::nat) = (if Prefix ?plain = FilestorePrefix mem_env then fm mem_fs else bs mem_fs)"
    by (simp_all add: mem_env_def mem_fs_def)
  have res: "delete_results mem_env 2 [Cid ''Qw'', Cid ''Qz'', Cid ''Qa''] ?s
     = [(Cid ''Qw'', Some (MkError bs_ErrNotFound ''blockstore: block not found'')),
        (Cid ''Qz'', Some (MkError other_error ''input/output error'')),
        (Cid ''Qa'', None)]"
    by (simp add: mem_env_def mem_DeleteBlock_def Errorf_def)
  note forced = RmBlocks_failed_delete_outcomes[where env = mem_env and fs = mem_fs
      and pins = mem_CheckIfPinned and cids = ?cids and opts = ?forced and w = "mem_world ?s"
      and ch = ?chf and w' = ?w' and res = ?res and blocks = 2, OF runf chk self]
  note plain = RmBlocks_failed_delete_outcomes[where env = mem_env and fs = mem_fs
      and pins = mem_CheckIfPinned and cids = ?cids and opts = ?plain and w = "mem_world ?s"
      and ch = ?chp and w' = ?w' and res = ?res and blocks = 2, OF runp chk selp]
  show ?thesis
    using runf runp res forced plain by simp
qed

text \<open>
  C4. Take any call of \<open>RmBlocks\<close> with a known prefix in which the pin check succeeds, and
  run it once with \<open>quiet\<close> false and once with \<open>quiet\<close> true. Both runs return a channel and
  leave the same world. With \<open>quiet\<close> false every successful deletion has an outcome with
  its hash and the empty error string. With \<open>quiet\<close> true the channel holds the same outcomes
  in the same order but for these: every pinned rejection and every delete error that the
  run with \<open>quiet\<close> false reports is reported with \<open>quiet\<close> true as well.
\<close>

theorem RmBlocks_quiet_drops_successes_only:
  assumes known: "Prefix opts = FilestorePrefix env \<or> Prefix opts = BlockPrefix env"
    and chk: "pins (state w) cids = Inr res"
    and sel: "blocks = (if Prefix opts = FilestorePrefix env then fm fs else bs fs)"
  shows "\<exists>loud hushed w'.
     RmBlocks env fs pins cids (opts\<lparr>Quiet := False\<rparr>) w = (Inr loud, w') \<and>
     RmBlocks env fs pins cids (opts\<lparr>Quiet := True\<rparr>) w = (Inr hushed, w') \<and>
     buf loud =
       map (\<lambda>r. \<lparr>Hash = String (Key r), Error = reason r\<rparr>) (filter (\<lambda>r. pinned r \<and> AvailableElsewhere env fs blocks (Key r) (state w) = Return False) res) @
       concat (map (\<lambda>(c, err). case err of
                      None \<Rightarrow> [\<lparr>Hash = String c, Error = []\<rparr>]
                    | Some e \<Rightarrow>
                      if Force opts \<and> (ident e = bs_ErrNotFound \<or> ident e = ds_ErrNotFound) then []
                      else [\<lparr>Hash = String c, Error = err_Error e\<rparr>])
          (delete_results env blocks (map Key (filter (\<lambda>r. \<not> (pinned r \<and> AvailableElsewhere env fs blocks (Key r) (state w) = Return False)) res)) (state w))) \<and>
     buf hushed =
       map (\<lambda>r. \<lparr>Hash = String (Key r), Error = reason r\<rparr>) (filter (\<lambda>r. pinned r \<and> AvailableElsewhere env fs blocks (Key r) (state w) = Return False) res) @
       concat (map (\<lambda>(c, err). case err of
                      None \<Rightarrow> []
                    | Some e \<Rightarrow>
                      if Force opts \<and> (ident e = bs_ErrNotFound \<or> ident e = ds_ErrNotFound) then []
                      else [\<lparr>Hash = String c, Error = err_Error e\<rparr>])
          (delete_results env blocks (map Key (filter (\<lambda>r. \<not> (pinned r \<and> AvailableElsewhere env fs blocks (Key r) (state w) = Return False)) res)) (state w)))"
proof -
  let ?okay = "map Key (filter (\<lambda>r. \<not> (pinned r \<and> AvailableElsewhere env fs blocks (Key r) (state w) = Return False)) res)"
  let ?out1 = "\<lparr>cap = length cids,
              buf = map (\<lambda>r. \<lparr>Hash = String (Key r), Error = reason r\<rparr>) (filter (\<lambda>r. pinned r \<and> AvailableElsewhere env fs blocks (Key r) (state w) = Return False) res),
              closed = False\<rparr>"
  let ?w1 = "w\<lparr>calls := calls w @ [GCLock]\<rparr>"
  let ?L = "delete_loop env blocks (opts\<lparr>Quiet := False\<rparr>) ?okay ?out1 ?w1"
  let ?Q = "delete_loop env blocks (opts\<lparr>Quiet := True\<rparr>) ?okay ?out1 ?w1"
  have kl: "Prefix (opts\<lparr>Quiet := False\<rparr>) = FilestorePrefix env \<or> Prefix (opts\<lparr>Quiet := False\<rparr>) = BlockPrefix env"
    and kq: "Prefix (opts\<lparr>Quiet := True\<rparr>) = FilestorePrefix env \<or> Prefix (opts\<lparr>Quiet := True\<rparr>) = BlockPrefix env"
    using known by simp_all
  have sl: "blocks = (if Prefix (opts\<lparr>Quiet := False\<rparr>) = FilestorePrefix env then fm fs else bs fs)"
    and sq: "blocks = (if Prefix (opts\<lparr>Quiet := True\<rparr>) = FilestorePrefix env then fm fs else bs fs)"
    using sel by simp_all
  have rl: "RmBlocks env fs pins cids (opts\<lparr>Quiet := False\<rparr>) w =
      (Inr (close (fst ?L)), (snd ?L)\<lparr>calls := calls (snd ?L) @ [Unlock]\<rparr>)"
    unfolding RmBlocks_is_loop[where pins = pins and w = w and cids = cids and res = res, OF kl chk sl]
    by (simp add: split_beta)
  have rq: "RmBlocks env fs pins cids (opts\<lparr>Quiet := True\<rparr>) w =
      (Inr (close (fst ?Q)), (snd ?Q)\<lparr>calls := calls (snd ?Q) @ [Unlock]\<rparr>)"
    unfolding RmBlocks_is_loop[where pins = pins and w = w and cids = cids and res = res, OF kq chk sq]
    by (simp add: split_beta)
  have sw: "snd ?Q = snd ?L"
    by (rule delete_loop_world)
  have bl: "buf (close (fst ?L)) =
       map (\<lambda>r. \<lparr>Hash = String (Key r), Error = reason r\<rparr>) (filter (\<lambda>r. pinned r \<and> AvailableElsewhere env fs blocks (Key r) (state w) = Return False) res) @
       concat (map (\<lambda>(c, err). case err of
                      None \<Rightarrow> [\<lparr>Hash = String c, Error = []\<rparr>]
                    | Some e \<Rightarrow>
                      if Force opts \<and> (ident e = bs_ErrNotFound \<or> ident e = ds_ErrNotFound) then []
                      else [\<lparr>Hash = String c, Error = err_Error e\<rparr>])
          (delete_results env blocks ?okay (state w)))"
    unfolding delete_loop_stream by (simp add: close_def)
  have bq: "buf (close (fst ?Q)) =
       map (\<lambda>r. \<lparr>Hash = String (Key r), Error = reason r\<rparr>) (filter (\<lambda>r. pinned r \<and> AvailableElsewhere env fs blocks (Key r) (state w) = Return False) res) @
       concat (map (\<lambda>(c, err). case err of
                      None \<Rightarrow> []
                    | Some e \<Rightarrow>
                      if Force opts \<and> (ident e = bs_ErrNotFound \<or> ident e = ds_ErrNotFound) then []
                      else [\<lparr>Hash = String c, Error = err_Error e\<rparr>])
          (delete_results env blocks ?okay (state w)))"
    unfolding delete_loop_stream by (simp add: close_def)
  show ?thesis
    using rl rq sw bl bq by (intro exI[of _ "close (fst ?L)"] exI[of _ "close (fst ?Q)"] exI[of _ "(snd ?L)\<lparr>calls := calls (snd ?L) @ [Unlock]\<rparr>"]) simp
qed

theorem RmBlocks_quiet_drops_successes_only_witness:
  "RmBlocks mem_env mem_fs mem_CheckIfPinned [Cid ''Qx'', Cid ''Qz'', Cid ''Qa'']
       (\<lparr>Prefix = ''/filestore'', Quiet = False, Force = False\<rparr>\<lparr>Quiet := False\<rparr>)
       (mem_world \<lparr>held = [(1, Cid ''Qx''), (1, Cid ''Qa'')], faulty = [(1, Cid ''Qz'')],
                    pinset = [(Cid ''Qx'', ''pinned: recursive'')]\<rparr>)
     = (Inr \<lparr>cap = 3,
             buf = [\<lparr>Hash = ''Qx'', Error = ''pinned: recursive''\<rparr>,
                    \<lparr>Hash = ''Qz'', Error = ''input/output error''\<rparr>,
                    \<lparr>Hash = ''Qa'', Error = []\<rparr>],
             closed = True\<rparr>,
        \<lparr>state = \<lparr>held = [(1, Cid ''Qx'')], faulty = [(1, Cid ''Qz'')],
                   pinset = [(Cid ''Qx'', ''pinned: recursive'')]\<rparr>,
          calls = [GCLock, Call_DeleteBlock 1 (Cid ''Qz''), Call_DeleteBlock 1 (Cid ''Qa''), Unlock],
          crashed = None\<rparr>) \<and>
   RmBlocks mem_env mem_fs mem_CheckIfPinned [Cid ''Qx'', Cid ''Qz'', Cid ''Qa'']
       (\<lparr>Prefix = ''/filestore'', Quiet = False, Force = False\<rparr>\<lparr>Quiet := True\<rparr>)
       (mem_world \<lparr>held = [(1, Cid ''Qx''), (1, Cid ''Qa'')], faulty = [(1, Cid ''Qz'')],
                    pinset = [(Cid ''Qx'', ''pinned: recursive'')]\<rparr>)
     = (Inr \<lparr>cap = 3,
             buf = [\<lparr>Hash = ''Qx'', Error = ''pinned: recursive''\<rparr>,
                    \<lparr>Hash = ''Qz'', Error = ''input/output error''\<rparr>],
             closed = True\<rparr>,
        \<lparr>state = \<lparr>held = [(1, Cid ''Qx'')], faulty = [(1, Cid ''Qz'')],
                   pinset = [(Cid ''Qx'', ''pinned: recursive'')]\<rparr>,
          calls = [GCLock, Call_DeleteBlock 1 (Cid ''Qz''), Call_DeleteBlock 1 (Cid ''Qa''), Unlock],
          crashed = None\<rparr>)"
proof -
  let ?s = "\<lparr>held = [(1, Cid ''Qx''), (1, Cid ''Qa'')], faulty = [(1, Cid ''Qz'')],
             pinset = [(Cid ''Qx'', ''pinned: recursive'')]\<rparr>"
  let ?opts = "\<lparr>Prefix = ''/filestore'', Quiet = False, Force = False\<rparr>"
  let ?cids = "[Cid ''Qx'', Cid ''Qz'', Cid ''Qa'']"
  let ?res = "[\<lparr>Key = Cid ''Qx'', pinned = True, reason = ''pinned: recursive''\<rparr>,
               \<lparr>Key = Cid ''Qz'', pinned = False, reason = ''not pinned''\<rparr>,
               \<lparr>Key = Cid ''Qa'', pinned = False, reason = ''not pinned''\<rparr>]"
  have known: "Prefix ?opts = FilestorePrefix mem_env \<or> Prefix ?opts = BlockPrefix mem_env"
    by (simp add: mem_env_def)
  have chk: "mem_CheckIfPinned (state (mem_world ?s)) ?cids = Inr ?res"
    by (simp add: mem_CheckIfPinned_def mem_world_def)
  have sel: "(1::nat) = (if Prefix ?opts = FilestorePrefix mem_env then fm mem_fs else bs mem_fs)"
    by (simp add: mem_env_def mem_fs_def)
  note both = RmBlocks_quiet_drops_successes_only[where env = mem_env and fs = mem_fs
      and pins = mem_CheckIfPinned and cids = ?cids and opts = ?opts and w = "mem_world ?s"
      and res = ?res and blocks = 1, OF known chk sel]
  have el: "RmBlocks mem_env mem_fs mem_CheckIfPinned ?cids (?opts\<lparr>Quiet := False\<rparr>) (mem_world ?s)
     = (Inr \<lparr>cap = 3,
             buf = [\<lparr>Hash = ''Qx'', Error = ''pinned: recursive''\<rparr>,
                    \<lparr>Hash = ''Qz'', Error = ''input/output error''\<rparr>,
                    \<lparr>Hash = ''Qa'', Error = []\<rparr>],
             closed = True\<rparr>,
        \<lparr>state = \<lparr>held = [(1, Cid ''Qx'')], faulty = [(1, Cid ''Qz'')],
                   pinset = [(Cid ''Qx'', ''pinned: recursive'')]\<rparr>,
          calls = [GCLock, Call_DeleteBlock 1 (Cid ''Qz''), Call_DeleteBlock 1 (Cid ''Qa''), Unlock],
          crashed = None\<rparr>)"
    by (simp add: RmBlocks_def RmBlocks_go_def FilterPinned_def AvailableElsewhere_def
        delete_step_def Let_def mem_env_def mem_fs_def mem_world_def mem_CheckIfPinned_def
        mem_Has_def mem_DeleteBlock_def make_chan_def send_def close_def Errorf_def)
  have eq: "RmBlocks mem_env mem_fs mem_CheckIfPinned ?cids (?opts\<lparr>Quiet := True\<rparr>) (mem_world ?s)
     = (Inr \<lparr>cap = 3,
             buf = [\<lparr>Hash = ''Qx'', Error = ''pinned: recursive''\<rparr>,
                    \<lparr>Hash = ''Qz'', Error = ''input/output error''\<rparr>],
             closed = True\<rparr>,
        \<lparr>state = \<lparr>held = [(1, Cid ''Qx'')], faulty = [(1, Cid ''Qz'')],
                   pinset = [(Cid ''Qx'', ''pinned: recursive'')]\<rparr>,
          calls = [GCLock, Call_DeleteBlock 1 (Cid ''Qz''), Call_DeleteBlock 1 (Cid ''Qa''), Unlock],
          crashed = None\<rparr>)"
    by (simp add: RmBlocks_def RmBlocks_go_def FilterPinned_def AvailableElsewhere_def
        delete_step_def Let_def mem_env_def mem_fs_def mem_world_def mem_CheckIfPinned_def
        mem_Has_def mem_DeleteBlock_def make_chan_def send_def close_def Errorf_def)
  show ?thesis
    using both el eq by simp
qed

text \<open>
  C1. Take any call of \<open>RmBlocks\<close> that returns a channel, with \<open>res\<close> the answer of the pin
  check and \<open>blocks\<close> the backend the prefix selects. The calls it makes are: the GC lock,
  then one \<open>DeleteBlock\<close> on \<open>blocks\<close> for each entry of \<open>res\<close>, in order, except the
  entries that are pinned and for which \<open>AvailableElsewhere\<close> answers false, then the unlock.
  So a CID that the pin check reports as pinned and that has no copy in the other backend is
  never handed to \<open>DeleteBlock\<close>, and each such entry is reported on the channel by an
  outcome with the CID's hash and the pin reason as the error.
\<close>

theorem RmBlocks_keeps_pinned:
  assumes run: "RmBlocks env fs pins cids opts w = (Inr ch, w')"
    and chk: "pins (state w) cids = Inr res"
    and sel: "blocks = (if Prefix opts = FilestorePrefix env then fm fs else bs fs)"
  shows "calls w' = calls w @ [GCLock] @
           map (Call_DeleteBlock blocks)
             (map Key (filter (\<lambda>r. \<not> (pinned r \<and>
                AvailableElsewhere env fs blocks (Key r) (state w) = Return False)) res)) @
           [Unlock] \<and>
         (\<forall>c. (\<forall>r \<in> set res. Key r = c \<longrightarrow>
                  pinned r \<and> AvailableElsewhere env fs blocks c (state w) = Return False) \<longrightarrow>
              (\<forall>b. Call_DeleteBlock b c \<notin> set (drop (length (calls w)) (calls w')))) \<and>
         (\<forall>r \<in> set res.
            pinned r \<and> AvailableElsewhere env fs blocks (Key r) (state w) = Return False \<longrightarrow>
            \<lparr>Hash = String (Key r), Error = reason r\<rparr> \<in> set (buf ch))"
proof -
  let ?rej = "\<lambda>r. pinned r \<and> AvailableElsewhere env fs blocks (Key r) (state w) = Return False"
  let ?okay = "map Key (filter (\<lambda>r. \<not> ?rej r) res)"
  let ?out1 = "(make_chan (length cids))\<lparr>buf := buf (make_chan (length cids)) @
      map (\<lambda>r. \<lparr>Hash = String (Key r), Error = reason r\<rparr>) (filter ?rej res)\<rparr>"
  let ?w1 = "w\<lparr>calls := calls w @ [GCLock]\<rparr>"
  from RmBlocks_selected[OF run] sel
  have known: "blocks = fm fs \<or> blocks = bs fs"
    and go: "RmBlocks_go env fs pins cids opts blocks (make_chan (length cids)) w = (ch, w')"
    by auto
  have same: "(\<lambda>r. pinned r \<longrightarrow> AvailableElsewhere env fs blocks (Key r) (state w) = Return True)
      = (\<lambda>r. \<not> ?rej r)"
    using AvailableElsewhere_known[OF known, of env _ "state w"] by auto
  obtain out2 w2 where dl: "delete_loop env blocks opts ?okay ?out1 ?w1 = (out2, w2)"
    by (cases "delete_loop env blocks opts ?okay ?out1 ?w1")
  have ch: "ch = close out2" and w': "w' = w2\<lparr>calls := calls w2 @ [Unlock]\<rparr>"
    using go dl unfolding RmBlocks_go_checked[where pins = pins and w = w and cids = cids and res = res, OF known chk] same by simp_all
  have c2: "calls w2 = calls ?w1 @ map (Call_DeleteBlock blocks) ?okay"
    using delete_loop_calls[of env blocks opts ?okay ?out1 ?w1] dl by simp
  have callsw': "calls w' = calls w @ [GCLock] @ map (Call_DeleteBlock blocks) ?okay @ [Unlock]"
    using c2 w' by simp
  obtain more where more: "buf out2 = buf ?out1 @ more"
    using delete_loop_chan[of env blocks opts ?okay ?out1 ?w1] dl by auto
  have part3: "\<forall>r \<in> set res. ?rej r \<longrightarrow> \<lparr>Hash = String (Key r), Error = reason r\<rparr> \<in> set (buf ch)"
    using more ch by (auto simp: close_def make_chan_def)
  have part2: "\<forall>c. (\<forall>r \<in> set res. Key r = c \<longrightarrow> ?rej r) \<longrightarrow>
              (\<forall>b. Call_DeleteBlock b c \<notin> set (drop (length (calls w)) (calls w')))"
    using callsw' by auto
  show ?thesis using callsw' part2 part3 by blast
qed

theorem RmBlocks_keeps_pinned_witness:
  "RmBlocks mem_env mem_fs mem_CheckIfPinned [Cid ''Qx'', Cid ''Qy'', Cid ''Qa'']
       \<lparr>Prefix = ''/filestore'', Quiet = False, Force = False\<rparr>
       (mem_world \<lparr>held = [(1, Cid ''Qx''), (1, Cid ''Qy''), (2, Cid ''Qy''), (1, Cid ''Qa'')],
                    faulty = [],
                    pinset = [(Cid ''Qx'', ''pinned: recursive''), (Cid ''Qy'', ''pinned: direct'')]\<rparr>)
     = (Inr \<lparr>cap = 3,
             buf = [\<lparr>Hash = ''Qx'', Error = ''pinned: recursive''\<rparr>,
                    \<lparr>Hash = ''Qy'', Error = []\<rparr>, \<lparr>Hash = ''Qa'', Error = []\<rparr>],
             closed = True\<rparr>,
        \<lparr>state = \<lparr>held = [(1, Cid ''Qx''), (2, Cid ''Qy'')], faulty = [],
                   pinset = [(Cid ''Qx'', ''pinned: recursive''), (Cid ''Qy'', ''pinned: direct'')]\<rparr>,
          calls = [GCLock, Call_DeleteBlock 1 (Cid ''Qy''), Call_DeleteBlock 1 (Cid ''Qa''), Unlock],
          crashed = None\<rparr>) \<and>
   (\<forall>b. Call_DeleteBlock b (Cid ''Qx'') \<notin>
      set [GCLock, Call_DeleteBlock 1 (Cid ''Qy''), Call_DeleteBlock 1 (Cid ''Qa''), Unlock]) \<and>
   \<lparr>Hash = ''Qx'', Error = ''pinned: recursive''\<rparr> \<in>
      set [\<lparr>Hash = ''Qx'', Error = ''pinned: recursive''\<rparr>,
           \<lparr>Hash = ''Qy'', Error = []\<rparr>, \<lparr>Hash = ''Qa'', Error = []\<rparr>]"
proof -
  let ?s = "\<lparr>held = [(1, Cid ''Qx''), (1, Cid ''Qy''), (2, Cid ''Qy''), (1, Cid ''Qa'')],
             faulty = [],
             pinset = [(Cid ''Qx'', ''pinned: recursive''), (Cid ''Qy'', ''pinned: direct'')]\<rparr>"
  let ?opts = "\<lparr>Prefix = ''/filestore'', Quiet = False, Force = False\<rparr>"
  let ?cids = "[Cid ''Qx'', Cid ''Qy'', Cid ''Qa'']"
  let ?res = "[\<lparr>Key = Cid ''Qx'', pinned = True, reason = ''pinned: recursive''\<rparr>,
               \<lparr>Key = Cid ''Qy'', pinned = True, reason = ''pinned: direct''\<rparr>,
               \<lparr>Key = Cid ''Qa'', pinned = False, reason = ''not pinned''\<rparr>]"
  let ?ch = "\<lparr>cap = 3,
             buf = [\<lparr>Hash = ''Qx'', Error = ''pinned: recursive''\<rparr>,
                    \<lparr>Hash = ''Qy'', Error = []\<rparr>, \<lparr>Hash = ''Qa'', Error = []\<rparr>],
             closed = True\<rparr>"
  let ?w' = "\<lparr>state = \<lparr>held = [(1, Cid ''Qx''), (2, Cid ''Qy'')], faulty = [],
                   pinset = [(Cid ''Qx'', ''pinned: recursive''), (Cid ''Qy'', ''pinned: direct'')]\<rparr>,
          calls = [GCLock, Call_DeleteBlock 1 (Cid ''Qy''), Call_DeleteBlock 1 (Cid ''Qa''), Unlock],
          crashed = None\<rparr>"
  have run: "RmBlocks mem_env mem_fs mem_CheckIfPinned ?cids ?opts (mem_world ?s) = (Inr ?ch, ?w')"
    by (simp add: RmBlocks_def RmBlocks_go_def FilterPinned_def AvailableElsewhere_def
        delete_step_def Let_def mem_env_def mem_fs_def mem_world_def mem_CheckIfPinned_def
        mem_Has_def mem_DeleteBlock_def make_chan_def send_def close_def)
  have chk: "mem_CheckIfPinned (state (mem_world ?s)) ?cids = Inr ?res"
    by (simp add: mem_CheckIfPinned_def mem_world_def)
  have sel: "(1::nat) = (if Prefix ?opts = FilestorePrefix mem_env then fm mem_fs else bs mem_fs)"
    by (simp add: mem_env_def mem_fs_def)
  have rejx: "\<forall>r \<in> set ?res. Key r = Cid ''Qx'' \<longrightarrow>
      pinned r \<and> AvailableElsewhere mem_env mem_fs 1 (Cid ''Qx'') (state (mem_world ?s)) = Return False"
    by (simp add: AvailableElsewhere_def mem_env_def mem_fs_def mem_world_def mem_Has_def)
  note fact = RmBlocks_keeps_pinned[where env = mem_env and fs = mem_fs and pins = mem_CheckIfPinned
      and cids = ?cids and opts = ?opts and w = "mem_world ?s" and ch = ?ch and w' = ?w'
      and res = ?res and blocks = 1, OF run chk sel]
  from fact have "\<forall>b. Call_DeleteBlock b (Cid ''Qx'') \<notin> set (drop (length (calls (mem_world ?s))) (calls ?w'))"
    using rejx by blast
  moreover from fact have "\<lparr>Hash = ''Qx'', Error = ''pinned: recursive''\<rparr> \<in> set (buf ?ch)"
    by (simp add: AvailableElsewhere_def mem_env_def mem_fs_def mem_world_def mem_Has_def)
  ultimately show ?thesis
    using run by (simp add: mem_world_def)
qed

text \<open>
  Splitting a list by a predicate keeps its elements.
\<close>

lemma mset_map_partition:
  "mset (map f (filter (\<lambda>x. \<not> P x) xs)) + mset (map f (filter P xs)) = mset (map f xs)"
  by (induction xs) auto

text \<open>
  C8. Take a call of \<open>RmBlocks\<close> with \<open>quiet\<close> and \<open>force\<close> both false that returns a channel and
  in which the pin check succeeds, answering with one entry for each requested CID (in any
  order), as section 4.4 of the specification has it. Then the hashes of the outcomes on the
  channel are the requested CIDs, each as many times as it was requested: every requested
  CID has exactly one outcome, a pinned rejection, a delete error or a success.
\<close>

theorem RmBlocks_each_cid_once:
  assumes run: "RmBlocks env fs pins cids opts w = (Inr ch, w')"
    and loud: "\<not> Quiet opts" and unforced: "\<not> Force opts"
    and chk: "pins (state w) cids = Inr res"
    and each: "mset (map Key res) = mset cids"
  shows "mset (map Hash (buf ch)) = mset (map String cids)"
proof -
  define blocks where "blocks = (if Prefix opts = FilestorePrefix env then fm fs else bs fs)"
  let ?rej = "\<lambda>r. pinned r \<and> AvailableElsewhere env fs blocks (Key r) (state w) = Return False"
  let ?ok = "\<lambda>r. pinned r \<longrightarrow> AvailableElsewhere env fs blocks (Key r) (state w) = Return True"
  let ?okay = "map Key (filter ?ok res)"
  let ?out0 = "make_chan (length cids)"
  let ?out1 = "?out0\<lparr>buf := buf ?out0 @
      map (\<lambda>r. \<lparr>Hash = String (Key r), Error = reason r\<rparr>) (filter ?rej res)\<rparr>"
  let ?w1 = "w\<lparr>calls := calls w @ [GCLock]\<rparr>"
  from RmBlocks_selected[OF run] blocks_def
  have known: "blocks = fm fs \<or> blocks = bs fs"
    and go: "RmBlocks_go env fs pins cids opts blocks ?out0 w = (ch, w')"
    by auto
  have compl: "filter ?rej res = filter (\<lambda>r. \<not> ?ok r) res"
    using AvailableElsewhere_known[OF known, of env _ "state w"] by (intro filter_cong) auto
  obtain out2 w2 where dl: "delete_loop env blocks opts ?okay ?out1 ?w1 = (out2, w2)"
    by (cases "delete_loop env blocks opts ?okay ?out1 ?w1")
  have ch: "ch = close out2"
    using go dl
    unfolding RmBlocks_go_checked[where pins = pins and w = w and cids = cids and res = res, OF known chk]
    by simp
  have "map Hash (buf out2) = map Hash (buf ?out1) @ map String ?okay"
    using delete_loop_loud[OF loud unforced, of env blocks ?okay ?out1 ?w1] dl by simp
  then have "map Hash (buf ch) =
      map (\<lambda>r. String (Key r)) (filter (\<lambda>r. \<not> ?ok r) res) @
      map (\<lambda>r. String (Key r)) (filter ?ok res)"
    using ch compl by (simp add: close_def make_chan_def comp_def)
  then have "mset (map Hash (buf ch)) = mset (map (\<lambda>r. String (Key r)) res)"
    using mset_map_partition[of "\<lambda>r. String (Key r)" ?ok res] by simp
  also have "\<dots> = image_mset String (mset (map Key res))"
    by (simp add: image_mset.compositionality comp_def)
  finally show ?thesis using each by simp
qed

theorem RmBlocks_each_cid_once_witness:
  "mset (map Hash
     [\<lparr>Hash = ''Qx'', Error = ''pinned: recursive''\<rparr>,
      \<lparr>Hash = ''Qw'', Error = ''blockstore: block not found''\<rparr>,
      \<lparr>Hash = ''Qa'', Error = []\<rparr>])
     = mset (map String [Cid ''Qw'', Cid ''Qx'', Cid ''Qa'']) \<and>
   RmBlocks mem_env mem_fs mem_CheckIfPinned [Cid ''Qw'', Cid ''Qx'', Cid ''Qa'']
       \<lparr>Prefix = ''/blocks'', Quiet = False, Force = False\<rparr>
       (mem_world \<lparr>held = [(2, Cid ''Qx''), (2, Cid ''Qa'')], faulty = [],
                    pinset = [(Cid ''Qx'', ''pinned: recursive'')]\<rparr>)
     = (Inr \<lparr>cap = 3,
             buf = [\<lparr>Hash = ''Qx'', Error = ''pinned: recursive''\<rparr>,
                    \<lparr>Hash = ''Qw'', Error = ''blockstore: block not found''\<rparr>,
                    \<lparr>Hash = ''Qa'', Error = []\<rparr>],
             closed = True\<rparr>,
        \<lparr>state = \<lparr>held = [(2, Cid ''Qx'')], faulty = [],
                   pinset = [(Cid ''Qx'', ''pinned: recursive'')]\<rparr>,
          calls = [GCLock, Call_DeleteBlock 2 (Cid ''Qw''), Call_DeleteBlock 2 (Cid ''Qa''), Unlock],
          crashed = None\<rparr>)"
proof -
  let ?s = "\<lparr>held = [(2, Cid ''Qx''), (2, Cid ''Qa'')], faulty = [],
             pinset = [(Cid ''Qx'', ''pinned: recursive'')]\<rparr>"
  let ?opts = "\<lparr>Prefix = ''/blocks'', Quiet = False, Force = False\<rparr>"
  let ?cids = "[Cid ''Qw'', Cid ''Qx'', Cid ''Qa'']"
  let ?res = "[\<lparr>Key = Cid ''Qw'', pinned = False, reason = ''not pinned''\<rparr>,
               \<lparr>Key = Cid ''Qx'', pinned = True, reason = ''pinned: recursive''\<rparr>,
               \<lparr>Key = Cid ''Qa'', pinned = False, reason = ''not pinned''\<rparr>]"
  let ?ch = "\<lparr>cap = 3,
             buf = [\<lparr>Hash = ''Qx'', Error = ''pinned: recursive''\<rparr>,
                    \<lparr>Hash = ''Qw'', Error = ''blockstore: block not found''\<rparr>,
                    \<lparr>Hash = ''Qa'', Error = []\<rparr>],
             closed = True\<rparr>"
  let ?w' = "\<lparr>state = \<lparr>held = [(2, Cid ''Qx'')], faulty = [],
                   pinset = [(Cid ''Qx'', ''pinned: recursive'')]\<rparr>,
          calls = [GCLock, Call_DeleteBlock 2 (Cid ''Qw''), Call_DeleteBlock 2 (Cid ''Qa''), Unlock],
          crashed = None\<rparr>"
  have run: "RmBlocks mem_env mem_fs mem_CheckIfPinned ?cids ?opts (mem_world ?s) = (Inr ?ch, ?w')"
    by (simp add: RmBlocks_def RmBlocks_go_def FilterPinned_def AvailableElsewhere_def
        delete_step_def Let_def mem_env_def mem_fs_def mem_world_def mem_CheckIfPinned_def
        mem_Has_def mem_DeleteBlock_def make_chan_def send_def close_def)
  have loud: "\<not> Quiet ?opts" and unforced: "\<not> Force ?opts"
    by simp_all
  have chk: "mem_CheckIfPinned (state (mem_world ?s)) ?cids = Inr ?res"
    by (simp add: mem_CheckIfPinned_def mem_world_def)
  have each: "mset (map Key ?res) = mset ?cids"
    by simp
  from RmBlocks_each_cid_once[where env = mem_env and fs = mem_fs and pins = mem_CheckIfPinned
      and cids = ?cids and opts = ?opts and w = "mem_world ?s" and ch = ?ch and w' = ?w'
      and res = ?res, OF run loud unforced chk each]
  have "mset (map Hash (buf ?ch)) = mset (map String ?cids)" .
  then show ?thesis using run by simp
qed

text \<open>
  The channel is made with the number of requested CIDs as its capacity. When the pin check
  succeeds and answers with no more entries than CIDs were requested, the outcomes sent fit
  into it.
\<close>

lemma RmBlocks_within_capacity:
  assumes run: "RmBlocks env fs pins cids opts w = (Inr ch, w')"
    and chk: "pins (state w) cids = Inr res"
    and len: "length res \<le> length cids"
  shows "cap ch = length cids \<and> length (buf ch) \<le> cap ch"
proof -
  define blocks where "blocks = (if Prefix opts = FilestorePrefix env then fm fs else bs fs)"
  let ?rej = "\<lambda>r. pinned r \<and> AvailableElsewhere env fs blocks (Key r) (state w) = Return False"
  let ?ok = "\<lambda>r. pinned r \<longrightarrow> AvailableElsewhere env fs blocks (Key r) (state w) = Return True"
  let ?okay = "map Key (filter ?ok res)"
  let ?out0 = "make_chan (length cids)"
  let ?out1 = "?out0\<lparr>buf := buf ?out0 @
      map (\<lambda>r. \<lparr>Hash = String (Key r), Error = reason r\<rparr>) (filter ?rej res)\<rparr>"
  let ?w1 = "w\<lparr>calls := calls w @ [GCLock]\<rparr>"
  from RmBlocks_selected[OF run] blocks_def
  have known: "blocks = fm fs \<or> blocks = bs fs"
    and go: "RmBlocks_go env fs pins cids opts blocks ?out0 w = (ch, w')"
    by auto
  have compl: "filter ?rej res = filter (\<lambda>r. \<not> ?ok r) res"
    using AvailableElsewhere_known[OF known, of env _ "state w"] by (intro filter_cong) auto
  obtain out2 w2 where dl: "delete_loop env blocks opts ?okay ?out1 ?w1 = (out2, w2)"
    by (cases "delete_loop env blocks opts ?okay ?out1 ?w1")
  have ch: "ch = close out2"
    using go dl
    unfolding RmBlocks_go_checked[where pins = pins and w = w and cids = cids and res = res, OF known chk]
    by simp
  from delete_loop_chan[of env blocks opts ?okay ?out1 ?w1] dl
  obtain more where c: "cap out2 = cap ?out1" and b: "buf out2 = buf ?out1 @ more"
    and m: "length more \<le> length ?okay"
    by auto
  have "length (filter (\<lambda>r. \<not> ?ok r) res) + length (filter ?ok res) = length res"
    using sum_length_filter_compl[of ?ok res] by simp
  then have "length (buf out2) \<le> length res"
    using b m compl by (simp add: make_chan_def)
  then show ?thesis
    using ch c len by (simp add: close_def make_chan_def)
qed

text \<open>
  C7. The channel is meant to hold every outcome, so that no send blocks while the GC lock is
  held. With an empty list of CIDs and a failing pin check this is not so: the channel has
  capacity 0, and the one outcome that reports the failure is sent on it between the lock
  and the unlock.
\<close>

theorem RmBlocks_empty_list_pin_failure:
  "RmBlocks mem_env mem_fs failing_CheckIfPinned []
       \<lparr>Prefix = ''/blocks'', Quiet = False, Force = False\<rparr>
       (mem_world \<lparr>held = [], faulty = [], pinset = []\<rparr>)
     = (Inr \<lparr>cap = 0,
             buf = [\<lparr>Hash = [], Error = ''pin check failed: merkledag: not found''\<rparr>],
             closed = True\<rparr>,
        \<lparr>state = \<lparr>held = [], faulty = [], pinset = []\<rparr>, calls = [GCLock, Unlock],
          crashed = None\<rparr>)"
  by (simp add: RmBlocks_def RmBlocks_go_pin_error failing_CheckIfPinned_def Errorf_def
      mem_env_def mem_world_def make_chan_def send_def close_def)

text \<open>
  When some argument fails to decode, the decoding loop ends at the first such argument, with
  the error made from that argument and its decode error.
\<close>

lemma decode_loop_bad:
  assumes "\<exists>h \<in> set hashes. isl (Decode h)"
  shows "\<exists>pre h e post. hashes = pre @ h # post \<and> (\<forall>x \<in> set pre. \<not> isl (Decode x)) \<and>
           Decode h = Inl e \<and>
           decode_loop Decode hashes cids =
             Inl (Errorf (''invalid content id: '' @ h @ '' ('' @ err_Error e @ '')''))"
  using assms
proof (induction hashes arbitrary: cids)
  case Nil
  then show ?case by simp
next
  case (Cons a hashes)
  show ?case
  proof (cases "Decode a")
    case (Inl e)
    then have "a # hashes = [] @ a # hashes \<and> (\<forall>x \<in> set []. \<not> isl (Decode x)) \<and> Decode a = Inl e \<and>
        decode_loop Decode (a # hashes) cids =
          Inl (Errorf (''invalid content id: '' @ a @ '' ('' @ err_Error e @ '')''))"
      by simp
    then show ?thesis by blast
  next
    case (Inr c)
    with Cons.prems have "\<exists>h \<in> set hashes. isl (Decode h)" by auto
    from Cons.IH[OF this, of "cids @ [c]"]
    obtain pre h e post where p: "hashes = pre @ h # post" "\<forall>x \<in> set pre. \<not> isl (Decode x)"
        "Decode h = Inl e"
        "decode_loop Decode hashes (cids @ [c]) =
           Inl (Errorf (''invalid content id: '' @ h @ '' ('' @ err_Error e @ '')''))"
      by blast
    have "a # hashes = (a # pre) @ h # post \<and> (\<forall>x \<in> set (a # pre). \<not> isl (Decode x)) \<and>
        Decode h = Inl e \<and>
        decode_loop Decode (a # hashes) cids =
          Inl (Errorf (''invalid content id: '' @ h @ '' ('' @ err_Error e @ '')''))"
      using p Inr by simp
    then show ?thesis by blast
  qed
qed

text \<open>
  C9. When at least one argument of \<open>block rm\<close> fails to decode, the command sets an error and
  returns with the world it was called in, whatever \<open>util.RmBlocks\<close> would do: it is not
  called, and no block is deleted, for the well-formed arguments either. When the node is
  available the error is "invalid content id" with the first argument that fails to decode
  and its decode error; when it is not, the error is the one of \<open>GetNode\<close>. The failure is a
  value of the response, not a panic.
\<close>

theorem blockRm_bad_argument:
  assumes bad: "\<exists>h \<in> set (Arguments req). isl (Decode h)"
  shows "(\<forall>e0. node = Inl e0 \<longrightarrow>
            blockRmCmd_Run node Decode util_RmBlocks req w = (SetError e0 ErrNormal, w)) \<and>
         (\<forall>n. node = Inr n \<longrightarrow>
            (\<exists>pre h e post. Arguments req = pre @ h # post \<and>
               (\<forall>x \<in> set pre. \<not> isl (Decode x)) \<and> Decode h = Inl e \<and>
               blockRmCmd_Run node Decode util_RmBlocks req w =
                 (SetError (Errorf (''invalid content id: '' @ h @ '' ('' @ err_Error e @ '')''))
                    ErrNormal, w)))"
proof (intro conjI allI impI)
  fix e0 assume "node = Inl e0"
  then show "blockRmCmd_Run node Decode util_RmBlocks req w = (SetError e0 ErrNormal, w)"
    by (simp add: blockRmCmd_Run_def)
next
  fix n assume n: "node = Inr n"
  from decode_loop_bad[OF bad, of "[]"]
  obtain pre h e post where p: "Arguments req = pre @ h # post"
      "\<forall>x \<in> set pre. \<not> isl (Decode x)" "Decode h = Inl e"
      "decode_loop Decode (Arguments req) [] =
         Inl (Errorf (''invalid content id: '' @ h @ '' ('' @ err_Error e @ '')''))"
    by blast
  have "blockRmCmd_Run node Decode util_RmBlocks req w =
      (SetError (Errorf (''invalid content id: '' @ h @ '' ('' @ err_Error e @ '')'')) ErrNormal, w)"
    using n p(4) by (simp add: blockRmCmd_Run_def)
  with p show "\<exists>pre h e post. Arguments req = pre @ h # post \<and>
               (\<forall>x \<in> set pre. \<not> isl (Decode x)) \<and> Decode h = Inl e \<and>
               blockRmCmd_Run node Decode util_RmBlocks req w =
                 (SetError (Errorf (''invalid content id: '' @ h @ '' ('' @ err_Error e @ '')''))
                    ErrNormal, w)"
    by blast
qed

theorem blockRm_bad_argument_witness:
  "(\<exists>h \<in> set (Arguments \<lparr>Arguments = [''Qa'', ''zz'', ''Qx''], force = False, quiet = False\<rparr>).
      isl (test_Decode h)) \<and>
   blockRmCmd_Run (Inr ()) test_Decode
       (\<lambda>n cids opts w. RmBlocks mem_env mem_fs mem_CheckIfPinned cids
                           (opts\<lparr>Prefix := BlockPrefix mem_env\<rparr>) w)
       \<lparr>Arguments = [''Qa'', ''zz'', ''Qx''], force = False, quiet = False\<rparr>
       (mem_world \<lparr>held = [(2, Cid ''Qa'')], faulty = [], pinset = []\<rparr>)
     = (SetError (MkError other_error ''invalid content id: zz (selected encoding not supported)'')
          ErrNormal,
        \<lparr>state = \<lparr>held = [(2, Cid ''Qa'')], faulty = [], pinset = []\<rparr>, calls = [],
          crashed = None\<rparr>)"
proof -
  let ?req = "\<lparr>Arguments = [''Qa'', ''zz'', ''Qx''], force = False, quiet = False\<rparr>"
  have bad: "\<exists>h \<in> set (Arguments ?req). isl (test_Decode h)"
    by (simp add: test_Decode_def Errorf_def)
  show ?thesis
    using bad
      blockRm_bad_argument[where req = ?req and Decode = test_Decode and node = "Inr ()"
        and util_RmBlocks = "\<lambda>n cids opts w. RmBlocks mem_env mem_fs mem_CheckIfPinned cids
                           (opts\<lparr>Prefix := BlockPrefix mem_env\<rparr>) w"
        and w = "mem_world \<lparr>held = [(2, Cid ''Qa'')], faulty = [], pinset = []\<rparr>", OF bad]
    by (simp add: blockRmCmd_Run_def test_Decode_def Errorf_def mem_world_def)
qed

text \<open>
  C5, as stated, does not hold. A request with \<open>nocopy\<close> and without the \<open>raw-leaves\<close> option
  has raw leaves not enabled, yet it does not fail: \<open>Run\<close> turns raw leaves on for it, and the
  file is added with \<open>RawLeaves\<close> and \<open>NoCopy\<close> both set.
\<close>

theorem AddCmd_nocopy_implies_raw_leaves:
  "nocopy test_AddRequest \<and> \<not> rawblks test_AddRequest \<and>
   AddCmd_Run test_add_env test_AddRequest [] =
     (Close,
      [(\<lparr>Chunker = [], Progress = False, Hidden = False, Trickle = False, Wrap = False,
          Pin = True, Silent = False, RawLeaves = True, NoCopy = True,
          gc_blockstore = False, offline_exchange = False\<rparr>, ''a.txt'')])"
  by (simp add: AddCmd_Run_def addAllAndPin_def test_add_env_def test_AddRequest_def)

text \<open>
  C5, amended. A request with \<open>nocopy\<close> in which \<open>raw-leaves\<close> is given and is false fails and
  adds nothing: the world is the one \<open>Run\<close> was called in, whatever the adder would do. The
  error is the node's when the node is not available, else the configuration's when the
  configuration cannot be read, else "filestore is not enabled, see https://git.io/vy4XN",
  a client error, when the filestore is not enabled, and else
  "nocopy option requires '--raw-leaves' to be enabled as well".
\<close>

theorem AddCmd_nocopy_needs_raw_leaves:
  assumes "nocopy req" and "rbset req" and "\<not> rawblks req"
  shows "(\<forall>err. GetNode env = Inl err \<longrightarrow> AddCmd_Run env req w = (SetError err ErrNormal, w)) \<and>
         (\<forall>n err. GetNode env = Inr n \<and> Repo_Config env n = Inl err \<longrightarrow>
            AddCmd_Run env req w = (SetError err ErrNormal, w)) \<and>
         (\<forall>n cfg. GetNode env = Inr n \<and> Repo_Config env n = Inr cfg \<and> \<not> FilestoreEnabled cfg \<longrightarrow>
            AddCmd_Run env req w =
              (SetError (Errorf ''filestore is not enabled, see https://git.io/vy4XN'') ErrClient, w)) \<and>
         (\<forall>n cfg. GetNode env = Inr n \<and> Repo_Config env n = Inr cfg \<and> FilestoreEnabled cfg \<longrightarrow>
            AddCmd_Run env req w =
              (SetError
                 (Errorf (''nocopy option requires '' @ [CHR 0x27] @ ''--raw-leaves'' @ [CHR 0x27] @
                          '' to be enabled as well'')) ErrNormal, w))"
  using assms by (auto simp: AddCmd_Run_def Let_def)

theorem AddCmd_nocopy_needs_raw_leaves_witness:
  "nocopy (test_AddRequest\<lparr>rbset := True\<rparr>) \<and> rbset (test_AddRequest\<lparr>rbset := True\<rparr>) \<and>
   \<not> rawblks (test_AddRequest\<lparr>rbset := True\<rparr>) \<and>
   AddCmd_Run test_add_env (test_AddRequest\<lparr>rbset := True\<rparr>) [] =
     (SetError (MkError other_error
        (''nocopy option requires '' @ [CHR 0x27] @ ''--raw-leaves'' @ [CHR 0x27] @
         '' to be enabled as well'')) ErrNormal, []) \<and>
   AddCmd_Run (test_add_env\<lparr>Repo_Config := \<lambda>n. Inr \<lparr>FilestoreEnabled = False\<rparr>\<rparr>)
       (test_AddRequest\<lparr>rbset := True\<rparr>) [] =
     (SetError (MkError other_error ''filestore is not enabled, see https://git.io/vy4XN'')
        ErrClient, []) \<and>
   AddCmd_Run (test_add_env\<lparr>Repo_Config := \<lambda>n. Inl (MkError other_error ''config: no such file'')\<rparr>)
       (test_AddRequest\<lparr>rbset := True\<rparr>) [] =
     (SetError (MkError other_error ''config: no such file'') ErrNormal, []) \<and>
   AddCmd_Run (test_add_env\<lparr>GetNode := Inl (MkError other_error ''node: repo locked'')\<rparr>)
       (test_AddRequest\<lparr>rbset := True\<rparr>) [] =
     (SetError (MkError other_error ''node: repo locked'') ErrNormal, [])"
proof -
  let ?req = "test_AddRequest\<lparr>rbset := True\<rparr>"
  have a: "nocopy ?req" and b: "rbset ?req" and c: "\<not> rawblks ?req"
    by (simp_all add: test_AddRequest_def)
  note on = AddCmd_nocopy_needs_raw_leaves[OF a b c, of test_add_env "[]"]
  note off = AddCmd_nocopy_needs_raw_leaves[OF a b c,
      of "test_add_env\<lparr>Repo_Config := \<lambda>n. Inr \<lparr>FilestoreEnabled = False\<rparr>\<rparr>" "[]"]
  note nocfg = AddCmd_nocopy_needs_raw_leaves[OF a b c,
      of "test_add_env\<lparr>Repo_Config := \<lambda>n. Inl (MkError other_error ''config: no such file'')\<rparr>" "[]"]
  note nonode = AddCmd_nocopy_needs_raw_leaves[OF a b c,
      of "test_add_env\<lparr>GetNode := Inl (MkError other_error ''node: repo locked'')\<rparr>" "[]"]
  show ?thesis
    using a b c on off nocfg nonode by (simp add: test_add_env_def Errorf_def)
qed

end
